theory Spec2Isabelle
  imports Main "HOL-Library.Word" "HOL-Library.Signed_Division" "HOL-Library.Multiset"
begin

section \<open>Data model (api/redisfailover/v1)\<close>

text \<open>
  Go's \<^verbatim>\<open>error\<close> values are modelled by their message; a function returning
  \<^verbatim>\<open>error\<close> returns \<open>error option\<close> (\<open>None\<close> is \<^verbatim>\<open>nil\<close>), a function returning
  \<^verbatim>\<open>(T, error)\<close> returns \<open>error + T\<close>.
\<close>

type_synonym error = string
type_synonym int32 = "32 word"
type_synonym labels = "string \<rightharpoonup> string"

text \<open>
  The structs of the API package, with the fields the operator's handler, healer and
  \<^verbatim>\<open>getQuorum\<close> read or write. Fields that only the object generators use
  (images, resources, affinity, storage, ...) are left out. Field names that occur in two
  structs carry the struct as a prefix.
\<close>

record RedisExporter =
  Enabled :: bool

record RedisSettings =
  Redis_Replicas :: int32
  Redis_CustomConfig :: "string list"
  Exporter :: RedisExporter
  Password :: string

record SentinelSettings =
  Sentinel_Replicas :: int32
  Sentinel_CustomConfig :: "string list"

record RedisFailoverSpec =
  Redis :: RedisSettings
  Sentinel :: SentinelSettings

record RedisNode =
  PodIP :: string
  HostIP :: string
  IsMaster :: bool

record SentinelNode =
  Sentinel_PodIP :: string
  Sentinel_HostIP :: string

record RedisFailoverStatus =
  RedisNodes :: "RedisNode list"
  SentinelNodes :: "SentinelNode list"

record RedisFailover =
  Namespace :: string
  Name :: string
  UID :: string
  Labels :: labels
  Spec :: RedisFailoverSpec
  Status :: RedisFailoverStatus

text \<open>
  A pod as the healer sees it: its name, \<^verbatim>\<open>Status.PodIP\<close> (empty while no address has
  been assigned) and its creation timestamp, an instant on the time line.
\<close>

record Pod =
  Pod_Name :: string
  Pod_PodIP :: string
  CreationTimestamp :: int

definition Before :: "int \<Rightarrow> int \<Rightarrow> bool" where
  "Before t u = (t < u)"

section \<open>Quorum (operator/redisfailover/service/generator.go)\<close>

text \<open>
  Go's \<^verbatim>\<open>/\<close> on \<^verbatim>\<open>int32\<close> truncates towards zero; the sum wraps at 32 bits.
\<close>

definition int32_quo :: "int32 \<Rightarrow> int32 \<Rightarrow> int32" where
  "int32_quo a b = word_of_int (sint a sdiv sint b)"

definition getQuorum :: "RedisFailover \<Rightarrow> int32" where
  "getQuorum rf = int32_quo (Sentinel_Replicas (Sentinel (Spec rf))) 2 + 1"

text \<open>\<^verbatim>\<open>strconv.Itoa\<close>: the decimal digits of an integer, with a sign when negative.\<close>

definition digit :: "nat \<Rightarrow> char" where
  "digit d = ''0123456789'' ! d"

function digits :: "nat \<Rightarrow> string" where
  "digits n = (if n < 10 then [digit n] else digits (n div 10) @ [digit (n mod 10)])"
  by pat_completeness auto
termination
  by (relation "measure id") auto

declare digits.simps [simp del]

definition Itoa :: "int \<Rightarrow> string" where
  "Itoa i = (if i < 0 then CHR ''-'' # digits (nat (- i)) else digits (nat i))"

text \<open>
  The quorum as the specification words it: \<open>floor(liveSentinelCount / 2) + 1\<close>, a
  function of the number of sentinels that are live.
\<close>

definition spec_quorum :: "nat \<Rightarrow> int" where
  "spec_quorum liveSentinelCount = int liveSentinelCount div 2 + 1"

section \<open>The healer (operator/redisfailover/service, RedisFailoverHealer)\<close>

text \<open>
  The methods of the \<^verbatim>\<open>redis.Client\<close> interface that the healer calls, one constructor
  per method, with the method's arguments. A client is a function that executes such a
  call on the world of node processes and answers with an error or \<^verbatim>\<open>nil\<close>.
\<close>

datatype cmd =
    MakeMaster string string
  | MakeSlaveOf string string string
  | MonitorRedis string string string
  | ResetSentinel string
  | SetCustomSentinelConfig string "string list"
  | SetCustomRedisConfig string string "string list"

type_synonym 'w redis_Client = "cmd \<Rightarrow> 'w \<Rightarrow> error option \<times> 'w"

text \<open>
  The healer struct holds the Kubernetes service and the Redis client (its logger has no
  effect on the cluster and is left out). Of the Kubernetes service the healer calls
  \<^verbatim>\<open>GetStatefulSetPods\<close> only, once per operation; its answer is a parameter.
  \<^verbatim>\<open>GetRedisName\<close> (a function of the package that is not part of the sources at
  hand) and Go's \<^verbatim>\<open>sort.Slice\<close> are parameters as well: \<^verbatim>\<open>sort.Slice\<close>
  promises a permutation ordered by the given \<^verbatim>\<open>less\<close> and no stability, so a theorem
  about the healer assumes of it exactly that.
\<close>

record 'w RedisFailoverHealer =
  GetStatefulSetPods :: "string \<Rightarrow> string \<Rightarrow> error + Pod list"
  redisClient :: "'w redis_Client"
  GetRedisName :: "RedisFailover \<Rightarrow> string"
  sort_Slice :: "(Pod \<Rightarrow> Pod \<Rightarrow> bool) \<Rightarrow> Pod list \<Rightarrow> Pod list"


text \<open>
  The loop of \<^verbatim>\<open>SetOldestAsMaster\<close> over the ordered pods. The variable
  \<^verbatim>\<open>newMasterIP\<close> starts empty; an iteration that finds it empty takes the pod's
  address as the new master and promotes it, every other iteration makes the pod a
  replica of \<^verbatim>\<open>newMasterIP\<close>. The first error ends the loop and is returned.
\<close>

fun SetOldestAsMaster_loop ::
  "'w redis_Client \<Rightarrow> string \<Rightarrow> string \<Rightarrow> Pod list \<Rightarrow> 'w \<Rightarrow> error option \<times> 'w" where
  "SetOldestAsMaster_loop c password newMasterIP [] w = (None, w)"
| "SetOldestAsMaster_loop c password newMasterIP (pod # pods) w =
     (if newMasterIP = ''''
      then (case c (MakeMaster (Pod_PodIP pod) password) w of
              (Some err, w') \<Rightarrow> (Some err, w')
            | (None, w') \<Rightarrow> SetOldestAsMaster_loop c password (Pod_PodIP pod) pods w')
      else (case c (MakeSlaveOf (Pod_PodIP pod) newMasterIP password) w of
              (Some err, w') \<Rightarrow> (Some err, w')
            | (None, w') \<Rightarrow> SetOldestAsMaster_loop c password newMasterIP pods w'))"

definition SetOldestAsMaster ::
  "'w RedisFailoverHealer \<Rightarrow> RedisFailover \<Rightarrow> 'w \<Rightarrow> error option \<times> 'w" where
  "SetOldestAsMaster r rf w =
     (case GetStatefulSetPods r (Namespace rf) (GetRedisName r rf) of
        Inl err \<Rightarrow> (Some err, w)
      | Inr items \<Rightarrow>
          if length items < 1 then (Some ''number of redis pods are 0'', w)
          else SetOldestAsMaster_loop (redisClient r) (Password (Redis (Spec rf))) ''''
                 (sort_Slice r
                    (\<lambda>pi pj. Before (CreationTimestamp pi) (CreationTimestamp pj)) items) w)"

fun SetMasterOnAll_loop ::
  "'w redis_Client \<Rightarrow> string \<Rightarrow> string \<Rightarrow> Pod list \<Rightarrow> 'w \<Rightarrow> error option \<times> 'w" where
  "SetMasterOnAll_loop c password masterIP [] w = (None, w)"
| "SetMasterOnAll_loop c password masterIP (pod # pods) w =
     (if Pod_PodIP pod = masterIP
      then (case c (MakeMaster masterIP password) w of
              (Some err, w') \<Rightarrow> (Some err, w')
            | (None, w') \<Rightarrow> SetMasterOnAll_loop c password masterIP pods w')
      else (case c (MakeSlaveOf (Pod_PodIP pod) masterIP password) w of
              (Some err, w') \<Rightarrow> (Some err, w')
            | (None, w') \<Rightarrow> SetMasterOnAll_loop c password masterIP pods w'))"

definition SetMasterOnAll ::
  "'w RedisFailoverHealer \<Rightarrow> string \<Rightarrow> RedisFailover \<Rightarrow> 'w \<Rightarrow> error option \<times> 'w" where
  "SetMasterOnAll r masterIP rf w =
     (case GetStatefulSetPods r (Namespace rf) (GetRedisName r rf) of
        Inl err \<Rightarrow> (Some err, w)
      | Inr items \<Rightarrow>
          SetMasterOnAll_loop (redisClient r) (Password (Redis (Spec rf))) masterIP items w)"

definition NewSentinelMonitor ::
  "'w RedisFailoverHealer \<Rightarrow> string \<Rightarrow> string \<Rightarrow> RedisFailover \<Rightarrow> 'w \<Rightarrow> error option \<times> 'w"
  where
  "NewSentinelMonitor r ip monitor rf w =
     (let quorum = Itoa (sint (getQuorum rf))
      in redisClient r (MonitorRedis ip monitor quorum) w)"




subsection \<open>Observing the calls an operation issues\<close>

text \<open>
  To speak about the calls an operation issues, a collaborator is wrapped so that every
  call is appended, with its answer, to a journal carried beside the world. The wrapped
  collaborator answers and acts as the original does.
\<close>

definition logged ::
  "('c \<Rightarrow> error option \<Rightarrow> 'e) \<Rightarrow> ('c \<Rightarrow> 'w \<Rightarrow> error option \<times> 'w)
     \<Rightarrow> 'c \<Rightarrow> 'e list \<times> 'w \<Rightarrow> error option \<times> ('e list \<times> 'w)" where
  "logged mk c cm = (\<lambda>(tr, w). case c cm w of (e, w') \<Rightarrow> (e, (tr @ [mk cm e], w')))"

type_synonym journal = "(cmd \<times> error option) list"

definition recording :: "'w redis_Client \<Rightarrow> (journal \<times> 'w) redis_Client" where
  "recording c = logged Pair c"

definition observed :: "'w RedisFailoverHealer \<Rightarrow> (journal \<times> 'w) RedisFailoverHealer" where
  "observed r =
     \<lparr>GetStatefulSetPods = GetStatefulSetPods r,
      redisClient = recording (redisClient r),
      GetRedisName = GetRedisName r,
      sort_Slice = sort_Slice r\<rparr>"

text \<open>
  The insertion sort that \<^verbatim>\<open>sort.Slice\<close> runs on a short slice (at most 12 elements),
  for concrete runs: each element in turn moves towards the front for as long as it is
  less than its predecessor, so elements that compare equal keep their listing order.
  \<open>sift\<close> takes the elements in front of the moving one, nearest first.
\<close>

fun sift :: "('a \<Rightarrow> 'a \<Rightarrow> bool) \<Rightarrow> 'a \<Rightarrow> 'a list \<Rightarrow> 'a list" where
  "sift lt x [] = [x]"
| "sift lt x (y # front) = (if lt x y then y # sift lt x front else x # y # front)"

definition insertion_sort :: "('a \<Rightarrow> 'a \<Rightarrow> bool) \<Rightarrow> 'a list \<Rightarrow> 'a list" where
  "insertion_sort lt xs = rev (foldl (\<lambda>front x. sift lt x front) [] xs)"

text \<open>
  Executing a list of calls in order, up to the first error, and the journal such an
  execution leaves: every call made, with its answer.
\<close>

fun run :: "('c \<Rightarrow> 'w \<Rightarrow> error option \<times> 'w) \<Rightarrow> 'c list \<Rightarrow> 'w \<Rightarrow> error option \<times> 'w" where
  "run c [] w = (None, w)"
| "run c (cm # cms) w =
     (case c cm w of (Some err, w') \<Rightarrow> (Some err, w') | (None, w') \<Rightarrow> run c cms w')"

fun answers ::
  "('c \<Rightarrow> 'w \<Rightarrow> error option \<times> 'w) \<Rightarrow> 'c list \<Rightarrow> 'w \<Rightarrow> ('c \<times> error option) list" where
  "answers c [] w = []"
| "answers c (cm # cms) w =
     (case c cm w of (Some err, w') \<Rightarrow> [(cm, Some err)]
      | (None, w') \<Rightarrow> (cm, None) # answers c cms w')"

text \<open>The commands the two loops are about to issue, as functions of the pod list.\<close>

fun oldest_plan :: "string \<Rightarrow> string \<Rightarrow> Pod list \<Rightarrow> cmd list" where
  "oldest_plan password newMasterIP [] = []"
| "oldest_plan password newMasterIP (pod # pods) =
     (if newMasterIP = ''''
      then MakeMaster (Pod_PodIP pod) password # oldest_plan password (Pod_PodIP pod) pods
      else MakeSlaveOf (Pod_PodIP pod) newMasterIP password
             # oldest_plan password newMasterIP pods)"

definition master_plan :: "string \<Rightarrow> string \<Rightarrow> Pod list \<Rightarrow> cmd list" where
  "master_plan password masterIP pods =
     map (\<lambda>pod. if Pod_PodIP pod = masterIP then MakeMaster masterIP password
                 else MakeSlaveOf (Pod_PodIP pod) masterIP password) pods"

section \<open>The handler (operator/redisfailover)\<close>

text \<open>
  The calls of the \<^verbatim>\<open>RedisFailoverClient\<close> service that \<^verbatim>\<open>Ensure\<close> makes, one
  constructor per method, and the calls of the metrics client.
\<close>

record OwnerReference =
  APIVersion :: string
  Kind :: string
  Owner_Name :: string
  Owner_UID :: string
  BlockOwnerDeletion :: bool
  Controller :: bool

datatype ensure_call =
    EnsureRedisService RedisFailover labels "OwnerReference list"
  | EnsureNotPresentRedisService RedisFailover
  | EnsureSentinelService RedisFailover labels "OwnerReference list"
  | EnsureSentinelConfigMap RedisFailover labels "OwnerReference list"
  | EnsureRedisShutdownConfigMap RedisFailover labels "OwnerReference list"
  | EnsureRedisConfigMap RedisFailover labels "OwnerReference list"
  | EnsureRedisStatefulset RedisFailover labels "OwnerReference list"
  | EnsureSentinelDeployment RedisFailover labels "OwnerReference list"

datatype metric =
    SetClusterError string string
  | SetClusterOK string string

text \<open>
  The handler struct with its collaborators: the object service \<^verbatim>\<open>rfService\<close>, the
  checker (of which the handler's own code calls \<^verbatim>\<open>GetRedisesIPandHostIPs\<close>), the
  Kubernetes service (\<^verbatim>\<open>UpdateRedisFailovers\<close>, whose returned object is discarded)
  and the metrics client. Code of the repository that the handler calls and that is not
  part of the sources at hand is a parameter: \<^verbatim>\<open>Validate\<close> (a method of the resource,
  which sees the resource only and may update it), \<^verbatim>\<open>CheckAndHeal\<close>,
  \<^verbatim>\<open>util.MergeLabels\<close>, the constant \<^verbatim>\<open>operatorName\<close> and the group, version and
  kind of the resource.
\<close>

record 'w RedisFailoverHandler =
  rfService :: "ensure_call \<Rightarrow> 'w \<Rightarrow> error option \<times> 'w"
  GetRedisesIPandHostIPs :: "RedisFailover \<Rightarrow> 'w \<Rightarrow> (error + RedisNode list) \<times> 'w"
  UpdateRedisFailovers :: "string \<Rightarrow> RedisFailover \<Rightarrow> 'w \<Rightarrow> error option \<times> 'w"
  mClient :: "metric \<Rightarrow> 'w \<Rightarrow> 'w"
  Validate :: "RedisFailover \<Rightarrow> error option \<times> RedisFailover"
  CheckAndHeal :: "RedisFailover \<Rightarrow> 'w \<Rightarrow> error option \<times> 'w"
  MergeLabels :: "labels list \<Rightarrow> labels"
  operatorName :: string
  rfAPIVersion :: string
  rfKind :: string

text \<open>
  \<^verbatim>\<open>if err := f(); err != nil { return err }\<close> followed by the rest of the function.
\<close>

definition andThen ::
  "('w \<Rightarrow> error option \<times> 'w) \<Rightarrow> ('w \<Rightarrow> error option \<times> 'w) \<Rightarrow> 'w \<Rightarrow> error option \<times> 'w" where
  "andThen f g w = (case f w of (Some err, w') \<Rightarrow> (Some err, w') | (None, w') \<Rightarrow> g w')"

definition Ensure ::
  "'w RedisFailoverHandler \<Rightarrow> RedisFailover \<Rightarrow> labels \<Rightarrow> OwnerReference list \<Rightarrow> 'w
     \<Rightarrow> error option \<times> 'w" where
  "Ensure h rf lbls ors =
     andThen (if Enabled (Exporter (Redis (Spec rf)))
              then rfService h (EnsureRedisService rf lbls ors)
              else rfService h (EnsureNotPresentRedisService rf))
    (andThen (rfService h (EnsureSentinelService rf lbls ors))
    (andThen (rfService h (EnsureSentinelConfigMap rf lbls ors))
    (andThen (rfService h (EnsureRedisShutdownConfigMap rf lbls ors))
    (andThen (rfService h (EnsureRedisConfigMap rf lbls ors))
    (andThen (rfService h (EnsureRedisStatefulset rf lbls ors))
    (andThen (rfService h (EnsureSentinelDeployment rf lbls ors))
             (\<lambda>w. (None, w))))))))"

definition rfLabelManagedByKey :: string where
  "rfLabelManagedByKey = ''app.kubernetes.io/managed-by''"

definition rfLabelNameKey :: string where
  "rfLabelNameKey = ''redisfailovers.databases.spotahome.com/name''"

definition defaultLabels :: "'w RedisFailoverHandler \<Rightarrow> labels" where
  "defaultLabels h = [rfLabelManagedByKey \<mapsto> operatorName h]"

definition getLabels :: "'w RedisFailoverHandler \<Rightarrow> RedisFailover \<Rightarrow> labels" where
  "getLabels h rf =
     (let dynLabels = [rfLabelNameKey \<mapsto> Name rf]
      in MergeLabels h [defaultLabels h, dynLabels, Labels rf])"

text \<open>
  \<^verbatim>\<open>metav1.NewControllerRef\<close> names the owner and marks the reference as the
  controlling one, blocking the owner's deletion.
\<close>

definition createOwnerReferences ::
  "'w RedisFailoverHandler \<Rightarrow> RedisFailover \<Rightarrow> OwnerReference list" where
  "createOwnerReferences h rf =
     [\<lparr>APIVersion = rfAPIVersion h, Kind = rfKind h, Owner_Name = Name rf,
       Owner_UID = UID rf, BlockOwnerDeletion = True, Controller = True\<rparr>]"

text \<open>
  \<^verbatim>\<open>setRedisFailoverStatus\<close> asks the checker for the Redis nodes, stores them in the
  resource's status and sends the resource to the object store. The resource is passed
  by pointer, so the updated resource is part of the result.
\<close>

definition setRedisFailoverStatus ::
  "'w RedisFailoverHandler \<Rightarrow> RedisFailover \<Rightarrow> 'w \<Rightarrow> error option \<times> RedisFailover \<times> 'w" where
  "setRedisFailoverStatus h rf w =
     (case GetRedisesIPandHostIPs h rf w of
        (Inl err, w1) \<Rightarrow>
          (Some (''Get redisfailover status for '' @ Namespace rf @ '':'' @ Name rf
                   @ '' failed.''), rf, w1)
      | (Inr redisNodes, w1) \<Rightarrow>
          (let rf' = rf\<lparr>Status := (Status rf)\<lparr>RedisNodes := redisNodes\<rparr>\<rparr>
           in case UpdateRedisFailovers h (Namespace rf') rf' w1 of
                (Some err, w2) \<Rightarrow> (Some err, rf', w2)
              | (None, w2) \<Rightarrow> (None, rf', w2)))"

text \<open>The object an event delivers: a Redis failover resource, or something else.\<close>

datatype runtime_Object = RedisFailoverObject RedisFailover | OtherObject

definition Add :: "'w RedisFailoverHandler \<Rightarrow> runtime_Object \<Rightarrow> 'w \<Rightarrow> error option \<times> 'w" where
  "Add h obj w =
     (case obj of
        OtherObject \<Rightarrow> (Some ''can't handle the received object: not a redisfailover'', w)
      | RedisFailoverObject rf0 \<Rightarrow>
          (case Validate h rf0 of
             (Some err, rf) \<Rightarrow> (Some err, mClient h (SetClusterError (Namespace rf) (Name rf)) w)
           | (None, rf) \<Rightarrow>
               (let oRefs = createOwnerReferences h rf;
                    lbls = getLabels h rf
                in case Ensure h rf lbls oRefs w of
                     (Some err, w1) \<Rightarrow>
                       (Some err, mClient h (SetClusterError (Namespace rf) (Name rf)) w1)
                   | (None, w1) \<Rightarrow>
                       (case CheckAndHeal h rf w1 of
                          (Some err, w2) \<Rightarrow>
                            (Some err, mClient h (SetClusterError (Namespace rf) (Name rf)) w2)
                        | (None, w2) \<Rightarrow>
                            (case setRedisFailoverStatus h rf w2 of
                               (Some err, rf', w3) \<Rightarrow> (Some err, w3)
                             | (None, rf', w3) \<Rightarrow>
                                 (None, mClient h (SetClusterOK (Namespace rf') (Name rf')) w3))))))"

subsection \<open>Observing the calls of a pass\<close>

datatype event =
    Ensured ensure_call "error option"
  | Healed RedisFailover "error option"
  | Listed RedisFailover "error + RedisNode list"
  | Updated string RedisFailover "error option"
  | Metric metric

definition observed_handler ::
  "'w RedisFailoverHandler \<Rightarrow> (event list \<times> 'w) RedisFailoverHandler" where
  "observed_handler h =
     \<lparr>rfService = logged Ensured (rfService h),
      GetRedisesIPandHostIPs =
        (\<lambda>rf (tr, w). case GetRedisesIPandHostIPs h rf w of
                         (r, w') \<Rightarrow> (r, (tr @ [Listed rf r], w'))),
      UpdateRedisFailovers = (\<lambda>ns. logged (Updated ns) (UpdateRedisFailovers h ns)),
      mClient = (\<lambda>m (tr, w). (tr @ [Metric m], mClient h m w)),
      Validate = Validate h,
      CheckAndHeal = logged Healed (CheckAndHeal h),
      MergeLabels = MergeLabels h,
      operatorName = operatorName h,
      rfAPIVersion = rfAPIVersion h,
      rfKind = rfKind h\<rparr>"

text \<open>The calls of \<^verbatim>\<open>Ensure\<close> in the order of the source.\<close>

definition ensure_plan ::
  "RedisFailover \<Rightarrow> labels \<Rightarrow> OwnerReference list \<Rightarrow> ensure_call list" where
  "ensure_plan rf lbls ors =
     [if Enabled (Exporter (Redis (Spec rf))) then EnsureRedisService rf lbls ors
      else EnsureNotPresentRedisService rf,
      EnsureSentinelService rf lbls ors,
      EnsureSentinelConfigMap rf lbls ors,
      EnsureRedisShutdownConfigMap rf lbls ors,
      EnsureRedisConfigMap rf lbls ors,
      EnsureRedisStatefulset rf lbls ors,
      EnsureSentinelDeployment rf lbls ors]"

text \<open>
  The stage a call belongs to (1 \<^verbatim>\<open>Ensure\<close>, 2 \<^verbatim>\<open>CheckAndHeal\<close>, 3 the status write;
  validation, which makes no call, comes before all of them, and the metrics client
  reports after them), the error with which the stage returns when the call fails, and
  the call without its answer.
\<close>

fun stage :: "event \<Rightarrow> nat" where
  "stage (Ensured c e) = 1"
| "stage (Healed rf e) = 2"
| "stage (Listed rf r) = 3"
| "stage (Updated ns rf e) = 3"
| "stage (Metric m) = 4"

fun stage_error :: "event \<Rightarrow> error option" where
  "stage_error (Ensured c e) = e"
| "stage_error (Healed rf e) = e"
| "stage_error (Listed rf (Inl e)) =
     Some (''Get redisfailover status for '' @ Namespace rf @ '':'' @ Name rf @ '' failed.'')"
| "stage_error (Listed rf (Inr redisNodes)) = None"
| "stage_error (Updated ns rf e) = e"
| "stage_error (Metric m) = None"

fun call_of :: "event \<Rightarrow> event" where
  "call_of (Ensured c e) = Ensured c None"
| "call_of (Healed rf e) = Healed rf None"
| "call_of (Listed rf r) = Listed rf (Inr [])"
| "call_of (Updated ns rf e) = Updated ns rf None"
| "call_of (Metric m) = Metric m"

section \<open>The node processes behind the client\<close>

text \<open>
  Modelled from the spec: the client of package \<^verbatim>\<open>service/redis\<close> and the Redis and
  Sentinel processes it talks to are not part of the sources at hand. The specification
  gives the command contract (sections 4.2 and 6), and the model follows its words: a
  Redis node has a role (\<^verbatim>\<open>GetRole(ip) -> {isMaster, masterAddrIfReplica}\<close>), a
  credential and an applied list of configuration lines; a sentinel has a monitored
  master address with a quorum and a count of known peers
  (\<^verbatim>\<open>GetSentinelMonitor(sentinelIP) -> {masterAddr, quorum, knownPeerCount}\<close>) and its
  own configuration lines. \<^verbatim>\<open>MakeMaster\<close> promotes one node, \<^verbatim>\<open>MakeReplicaOf\<close>
  points one node to a master, \<^verbatim>\<open>MonitorMaster\<close> instructs one sentinel to monitor the
  given master with the given quorum, \<^verbatim>\<open>ResetSentinel\<close> resets the sentinel's cached
  peer and monitor state, \<^verbatim>\<open>SetCustomConfig\<close> pushes the declared lines to one node.
  A call returns an error on connection failure (the node is not reachable) or
  authentication rejection (the credential is not the node's), and then changes nothing.
\<close>

datatype role = Master | ReplicaOf string

record sentinel_state =
  monitored :: "(string \<times> string) option"
  knownPeerCount :: nat

record nodes =
  reachable :: "string \<Rightarrow> bool"
  credential :: "string \<Rightarrow> string"
  redis_role :: "string \<Rightarrow> role"
  redis_config :: "string \<Rightarrow> string list"
  sentinel :: "string \<Rightarrow> sentinel_state"
  sentinel_config :: "string \<Rightarrow> string list"

definition connect :: "nodes \<Rightarrow> string \<Rightarrow> error option" where
  "connect n ip = (if reachable n ip then None else Some ''connection failure'')"

definition authenticate :: "nodes \<Rightarrow> string \<Rightarrow> string \<Rightarrow> error option" where
  "authenticate n ip cred =
     (if \<not> reachable n ip then Some ''connection failure''
      else if credential n ip \<noteq> cred then Some ''auth rejection''
      else None)"

fun refusal :: "nodes \<Rightarrow> cmd \<Rightarrow> error option" where
  "refusal n (MakeMaster ip cred) = authenticate n ip cred"
| "refusal n (MakeSlaveOf ip masterIP cred) = authenticate n ip cred"
| "refusal n (MonitorRedis ip monitor quorum) = connect n ip"
| "refusal n (ResetSentinel ip) = connect n ip"
| "refusal n (SetCustomSentinelConfig ip ls) = connect n ip"
| "refusal n (SetCustomRedisConfig ip cred ls) = authenticate n ip cred"

fun effect :: "cmd \<Rightarrow> nodes \<Rightarrow> nodes" where
  "effect (MakeMaster ip cred) n = n\<lparr>redis_role := (redis_role n)(ip := Master)\<rparr>"
| "effect (MakeSlaveOf ip masterIP cred) n =
     n\<lparr>redis_role := (redis_role n)(ip := ReplicaOf masterIP)\<rparr>"
| "effect (MonitorRedis ip monitor quorum) n =
     n\<lparr>sentinel := (sentinel n)(ip := (sentinel n ip)\<lparr>monitored := Some (monitor, quorum)\<rparr>)\<rparr>"
| "effect (ResetSentinel ip) n =
     n\<lparr>sentinel := (sentinel n)(ip := \<lparr>monitored = None, knownPeerCount = 0\<rparr>)\<rparr>"
| "effect (SetCustomSentinelConfig ip ls) n =
     n\<lparr>sentinel_config := (sentinel_config n)(ip := ls)\<rparr>"
| "effect (SetCustomRedisConfig ip cred ls) n =
     n\<lparr>redis_config := (redis_config n)(ip := ls)\<rparr>"




section \<open>Concrete clusters\<close>

text \<open>
  A resource \<^verbatim>\<open>default/cache\<close> declaring a given number of sentinels, three pods
  listed in the creation order \<open>[t2, t1, t3]\<close>, clients that accept every command or
  refuse one of them, and a healer over them.
\<close>

definition rf_sentinels :: "int32 \<Rightarrow> RedisFailover" where
  "rf_sentinels n =
     \<lparr>Namespace = ''default'', Name = ''cache'', UID = ''7f3a'', Labels = Map.empty,
      Spec = \<lparr>Redis = \<lparr>Redis_Replicas = 3, Redis_CustomConfig = [''maxmemory 1gb''],
                        Exporter = \<lparr>Enabled = False\<rparr>, Password = ''secret''\<rparr>,
              Sentinel = \<lparr>Sentinel_Replicas = n,
                           Sentinel_CustomConfig = [''down-after-milliseconds 2000'']\<rparr>\<rparr>,
      Status = \<lparr>RedisNodes = [], SentinelNodes = []\<rparr>\<rparr>"

definition pod_t1 :: Pod where
  "pod_t1 = \<lparr>Pod_Name = ''rfr-cache-0'', Pod_PodIP = ''10.0.0.1'', CreationTimestamp = 100\<rparr>"

definition pod_t2 :: Pod where
  "pod_t2 = \<lparr>Pod_Name = ''rfr-cache-1'', Pod_PodIP = ''10.0.0.2'', CreationTimestamp = 200\<rparr>"

definition pod_t3 :: Pod where
  "pod_t3 = \<lparr>Pod_Name = ''rfr-cache-2'', Pod_PodIP = ''10.0.0.3'', CreationTimestamp = 300\<rparr>"

definition always_ok :: "'w redis_Client" where
  "always_ok cm w = (None, w)"

definition refusing :: "cmd \<Rightarrow> 'w redis_Client" where
  "refusing bad cm w = (if cm = bad then (Some ''connection refused'', w) else (None, w))"

definition healer_example :: "'w redis_Client \<Rightarrow> Pod list \<Rightarrow> 'w RedisFailoverHealer" where
  "healer_example c pods =
     \<lparr>GetStatefulSetPods =
        (\<lambda>ns name. if ns = ''default'' \<and> name = ''rfr-cache'' then Inr pods
                    else Inl ''statefulset not found''),
      redisClient = c,
      GetRedisName = (\<lambda>rf. ''rfr-'' @ Name rf),
      sort_Slice = insertion_sort\<rparr>"

text \<open>The sentinel pods that are live in a pass in which a single sentinel runs.\<close>

definition one_live_sentinel :: "Pod list" where
  "one_live_sentinel =
     [\<lparr>Pod_Name = ''rfs-cache-5d9c'', Pod_PodIP = ''10.0.1.1'', CreationTimestamp = 150\<rparr>]"


text \<open>
  A handler whose object service refuses the calls selected by a predicate, whose checker
  sees two Redis nodes, and whose validation rejects a Redis replica count that is not
  positive. Its world is the sentinel pods that are live together with the resource last
  written to the object store.
\<close>

definition nodes_seen :: "RedisNode list" where
  "nodes_seen =
     [\<lparr>PodIP = ''10.0.0.1'', HostIP = ''192.168.1.10'', IsMaster = True\<rparr>,
      \<lparr>PodIP = ''10.0.0.2'', HostIP = ''192.168.1.11'', IsMaster = False\<rparr>]"

definition handler_example ::
  "(ensure_call \<Rightarrow> bool) \<Rightarrow> (Pod list \<times> RedisFailover option) RedisFailoverHandler" where
  "handler_example refused =
     \<lparr>rfService = (\<lambda>c w. if refused c then (Some ''forbidden'', w) else (None, w)),
      GetRedisesIPandHostIPs = (\<lambda>rf w. (Inr nodes_seen, w)),
      UpdateRedisFailovers = (\<lambda>ns rf w. (None, (fst w, Some rf))),
      mClient = (\<lambda>m w. w),
      Validate =
        (\<lambda>rf. if sint (Redis_Replicas (Redis (Spec rf))) \<le> 0
              then (Some ''number of redises in spec is less than the minimum'', rf)
              else (None, rf)),
      CheckAndHeal = (\<lambda>rf w. (None, w)),
      MergeLabels = (\<lambda>ls. foldl (++) Map.empty ls),
      operatorName = ''redis-operator'',
      rfAPIVersion = ''storage.spotahome.com/v1alpha2'',
      rfKind = ''RedisFailover''\<rparr>"

definition refuses_config_map :: "ensure_call \<Rightarrow> bool" where
  "refuses_config_map c = (case c of EnsureRedisConfigMap rf lbls ors \<Rightarrow> True | _ \<Rightarrow> False)"

text \<open>
  A resource whose status still lists a Redis node and a sentinel that are gone, and the
  same resource with the Redis nodes the checker sees.
\<close>

definition rf_stale :: RedisFailover where
  "rf_stale =
     (rf_sentinels 3)
       \<lparr>Status := \<lparr>RedisNodes = [\<lparr>PodIP = ''10.0.0.9'', HostIP = ''192.168.1.19'',
                                     IsMaster = True\<rparr>],
                    SentinelNodes = [\<lparr>Sentinel_PodIP = ''10.0.1.9'',
                                       Sentinel_HostIP = ''192.168.1.19''\<rparr>]\<rparr>\<rparr>"

definition rf_written :: RedisFailover where
  "rf_written =
     (rf_sentinels 3)
       \<lparr>Status := \<lparr>RedisNodes = nodes_seen,
                    SentinelNodes = [\<lparr>Sentinel_PodIP = ''10.0.1.9'',
                                       Sentinel_HostIP = ''192.168.1.19''\<rparr>]\<rparr>\<rparr>"

definition rf_invalid :: RedisFailover where
  "rf_invalid =
     (rf_sentinels 3)
       \<lparr>Spec := (Spec (rf_sentinels 3))
                  \<lparr>Redis := (Redis (Spec (rf_sentinels 3)))\<lparr>Redis_Replicas := 0\<rparr>\<rparr>\<rparr>"

definition rf_observed :: RedisFailover where
  "rf_observed = (rf_sentinels 3)\<lparr>Status := \<lparr>RedisNodes = nodes_seen, SentinelNodes = []\<rparr>\<rparr>"

section \<open>Auxiliary facts\<close>

subsection \<open>Quorum arithmetic\<close>

lemma sdiv2_bounds:
  "- (2 ^ 31) \<le> (k::int) \<Longrightarrow> k < 2 ^ 31 \<Longrightarrow> - (2 ^ 30) \<le> k sdiv 2 \<and> k sdiv 2 < 2 ^ 30"
  by (auto simp: signed_divide_int_def sgn_if abs_if)

lemma sint_getQuorum:
  "sint (getQuorum rf) = sint (Sentinel_Replicas (Sentinel (Spec rf))) sdiv 2 + 1"
proof -
  let ?k = "sint (Sentinel_Replicas (Sentinel (Spec rf)))"
  have "- (2 ^ 31) \<le> ?k" "?k < 2 ^ 31"
    using sint_ge [of "Sentinel_Replicas (Sentinel (Spec rf))"]
      sint_lt [of "Sentinel_Replicas (Sentinel (Spec rf))"] by simp_all
  then have b: "- (2 ^ 30) \<le> ?k sdiv 2 \<and> ?k sdiv 2 < 2 ^ 30" by (rule sdiv2_bounds)
  have "sint (word_of_int (?k sdiv 2 + 1) :: int32) = ?k sdiv 2 + 1"
    unfolding sint_sbintrunc'
    by (rule signed_take_bit_int_eq_self) (use b in simp_all)
  then show ?thesis by (simp add: getQuorum_def int32_quo_def)
qed

lemma sdiv2_nonneg: "0 \<le> (k::int) \<Longrightarrow> k sdiv 2 = k div 2"
  by (cases "k = 0") (auto simp: signed_divide_int_def sgn_if)

lemma sdiv2_ge0_iff: "(0 \<le> (k::int) sdiv 2) = (- 1 \<le> k)"
  by (auto simp: signed_divide_int_def sgn_if abs_if)

lemma NewSentinelMonitor_observed:
  "NewSentinelMonitor (observed r) ip monitor rf (tr, w) =
     (fst (redisClient r (MonitorRedis ip monitor (Itoa (sint (getQuorum rf)))) w),
      (tr @ [(MonitorRedis ip monitor (Itoa (sint (getQuorum rf))),
              fst (redisClient r (MonitorRedis ip monitor (Itoa (sint (getQuorum rf)))) w))],
       snd (redisClient r (MonitorRedis ip monitor (Itoa (sint (getQuorum rf)))) w)))"
  by (simp add: NewSentinelMonitor_def observed_def recording_def logged_def Let_def split: prod.splits)

lemma quorum_law:
  "sint (Sentinel_Replicas (Sentinel (Spec rf))) = 1 \<Longrightarrow> sint (getQuorum rf) = 1"
  "sint (Sentinel_Replicas (Sentinel (Spec rf))) = 2 \<Longrightarrow> sint (getQuorum rf) = 2"
  "sint (Sentinel_Replicas (Sentinel (Spec rf))) = 3 \<Longrightarrow> sint (getQuorum rf) = 2"
  "sint (Sentinel_Replicas (Sentinel (Spec rf))) = 5 \<Longrightarrow> sint (getQuorum rf) = 3"
  by (simp_all add: sint_getQuorum signed_divide_int_def)

subsection \<open>Loops as executions of a plan, journals of executions\<close>

lemma SetOldestAsMaster_loop_run:
  "SetOldestAsMaster_loop c pw m pods w = run c (oldest_plan pw m pods) w"
  by (induction pods arbitrary: m w) (auto split: prod.splits option.splits)

lemma SetMasterOnAll_loop_run:
  "SetMasterOnAll_loop c pw m pods w = run c (master_plan pw m pods) w"
  by (induction pods arbitrary: w) (auto simp: master_plan_def split: prod.splits option.splits)

lemma run_logged:
  "run (logged mk c) cs (tr, w) =
     (fst (run c cs w), (tr @ map (\<lambda>(cm, e). mk cm e) (answers c cs w), snd (run c cs w)))"
  by (induction cs arbitrary: tr w) (auto simp: logged_def split: prod.splits option.splits)

lemma run_recording:
  "run (recording c) cs (tr, w) = (fst (run c cs w), (tr @ answers c cs w, snd (run c cs w)))"
  by (simp add: recording_def run_logged)

lemma answers_None:
  "fst (run c cs w) = None \<Longrightarrow> answers c cs w = map (\<lambda>cm. (cm, None)) cs"
  by (induction cs arbitrary: w) (auto split: prod.splits option.splits)

lemma answers_Some:
  "fst (run c cs w) = Some e \<Longrightarrow>
     \<exists>k<length cs. answers c cs w = map (\<lambda>cm. (cm, None)) (take k cs) @ [(cs ! k, Some e)]"
proof (induction cs arbitrary: w)
  case Nil
  then show ?case by simp
next
  case (Cons cm cms)
  obtain r w' where cw: "c cm w = (r, w')" by (cases "c cm w")
  show ?case
  proof (cases r)
    case None
    with Cons.prems cw have "fst (run c cms w') = Some e" by simp
    from Cons.IH [OF this] obtain k where k: "k < length cms"
      "answers c cms w' = map (\<lambda>cm. (cm, None)) (take k cms) @ [(cms ! k, Some e)]" by blast
    have "answers c (cm # cms) w = map (\<lambda>cm. (cm, None)) (take (Suc k) (cm # cms)) @ [((cm # cms) ! Suc k, Some e)]"
      using k cw None by simp
    moreover have "Suc k < length (cm # cms)" using k by simp
    ultimately show ?thesis by blast
  next
    case (Some e')
    with Cons.prems cw have "e' = e" by simp
    with Some cw have "answers c (cm # cms) w = map (\<lambda>cm. (cm, None)) (take 0 (cm # cms)) @ [((cm # cms) ! 0, Some e)]"
      by simp
    then show ?thesis by blast
  qed
qed

lemma answers_error_last:
  "i < length (answers c cs w) \<Longrightarrow> snd (answers c cs w ! i) = Some e \<Longrightarrow>
     Suc i = length (answers c cs w) \<and> fst (run c cs w) = Some e"
proof (induction cs arbitrary: w i)
  case Nil
  then show ?case by simp
next
  case (Cons cm cms)
  obtain r w' where cw: "c cm w = (r, w')" by (cases "c cm w")
  show ?case
  proof (cases r)
    case None
    with cw have a: "answers c (cm # cms) w = (cm, None) # answers c cms w'" by simp
    show ?thesis
    proof (cases i)
      case 0
      with Cons.prems a show ?thesis by simp
    next
      case (Suc j)
      with Cons.prems a have "j < length (answers c cms w')" "snd (answers c cms w' ! j) = Some e"
        by simp_all
      from Cons.IH [OF this] show ?thesis using a Suc cw None by simp
    qed
  next
    case (Some e')
    with cw Cons.prems show ?thesis by simp
  qed
qed

lemma answers_last:
  "answers c cs w \<noteq> [] \<Longrightarrow> snd (last (answers c cs w)) = fst (run c cs w)"
proof (induction cs arbitrary: w)
  case Nil
  then show ?case by simp
next
  case (Cons cm cms)
  obtain e w1 where s: "c cm w = (e, w1)" by (cases "c cm w")
  show ?case
  proof (cases e)
    case (Some err)
    with s show ?thesis by simp
  next
    case None
    show ?thesis
    proof (cases "answers c cms w1 = []")
      case True
      then have "cms = []" by (cases cms) (auto split: prod.splits option.splits)
      with s None show ?thesis by simp
    next
      case False
      with Cons.IH [of w1] s None show ?thesis by simp
    qed
  qed
qed

lemma answers_length_None:
  "fst (run c cs w) = None \<Longrightarrow> length (answers c cs w) = length cs"
  by (simp add: answers_None)

lemma length_oldest_plan [simp]: "length (oldest_plan pw m pods) = length pods"
  by (induction pods arbitrary: m) simp_all

subsection \<open>The healer under observation\<close>

lemma observed_simps [simp]:
  "GetStatefulSetPods (observed r) = GetStatefulSetPods r"
  "redisClient (observed r) = recording (redisClient r)"
  "GetRedisName (observed r) = GetRedisName r"
  "sort_Slice (observed r) = sort_Slice r"
  by (simp_all add: observed_def)

lemma healer_example_simps [simp]:
  "GetStatefulSetPods (healer_example c pods) ns name =
     (if ns = ''default'' \<and> name = ''rfr-cache'' then Inr pods else Inl ''statefulset not found'')"
  "redisClient (healer_example c pods) = c"
  "GetRedisName (healer_example c pods) rf = ''rfr-'' @ Name rf"
  "sort_Slice (healer_example c pods) = insertion_sort"
  by (simp_all add: healer_example_def)

lemma rf_sentinels_simps [simp]:
  "Namespace (rf_sentinels n) = ''default''"
  "Name (rf_sentinels n) = ''cache''"
  "Password (Redis (Spec (rf_sentinels n))) = ''secret''"
  "Sentinel_Replicas (Sentinel (Spec (rf_sentinels n))) = n"
  by (simp_all add: rf_sentinels_def)

lemma SetOldestAsMaster_observed:
  "SetOldestAsMaster (observed r) rf (tr, w) =
     (case GetStatefulSetPods r (Namespace rf) (GetRedisName r rf) of
        Inl err \<Rightarrow> (Some err, (tr, w))
      | Inr items \<Rightarrow>
          if items = [] then (Some ''number of redis pods are 0'', (tr, w))
          else (let plan = oldest_plan (Password (Redis (Spec rf))) ''''
                             (sort_Slice r
                                (\<lambda>pi pj. Before (CreationTimestamp pi) (CreationTimestamp pj))
                                items)
                in (fst (run (redisClient r) plan w),
                    (tr @ answers (redisClient r) plan w, snd (run (redisClient r) plan w)))))"
  by (cases "GetStatefulSetPods r (Namespace rf) (GetRedisName r rf)")
     (simp_all add: SetOldestAsMaster_def SetOldestAsMaster_loop_run run_recording Let_def)

lemma SetMasterOnAll_observed:
  "SetMasterOnAll (observed r) masterIP rf (tr, w) =
     (case GetStatefulSetPods r (Namespace rf) (GetRedisName r rf) of
        Inl err \<Rightarrow> (Some err, (tr, w))
      | Inr items \<Rightarrow>
          (let plan = master_plan (Password (Redis (Spec rf))) masterIP items
           in (fst (run (redisClient r) plan w),
               (tr @ answers (redisClient r) plan w, snd (run (redisClient r) plan w)))))"
  by (cases "GetStatefulSetPods r (Namespace rf) (GetRedisName r rf)")
     (simp_all add: SetMasterOnAll_def SetMasterOnAll_loop_run run_recording Let_def)

lemma answers_prefix: "map fst (answers c cs w) = take (length (answers c cs w)) cs"
  by (induction cs arbitrary: w) (auto split: prod.splits option.splits)

lemma answers_nonempty: "cs \<noteq> [] \<Longrightarrow> answers c cs w \<noteq> []"
  by (cases cs) (auto split: prod.splits option.splits)

lemma oldest_plan_chosen:
  "m \<noteq> '''' \<Longrightarrow> oldest_plan pw m pods = map (\<lambda>p. MakeSlaveOf (Pod_PodIP p) m pw) pods"
  by (induction pods) simp_all

lemma insertion_sort_creation_order_example:
  "insertion_sort (\<lambda>pi pj. Before (CreationTimestamp pi) (CreationTimestamp pj))
     [pod_t2, pod_t1, pod_t3] = [pod_t1, pod_t2, pod_t3]"
  by (simp add: insertion_sort_def Before_def pod_t1_def pod_t2_def pod_t3_def)

subsection \<open>Commands on the node processes\<close>

lemma refusal_effect [simp]: "refusal (effect d n) cm = refusal n cm"
  by (cases d; cases cm) (simp_all add: connect_def authenticate_def)

lemma refusal_fold [simp]: "refusal (fold effect cs n) cm = refusal n cm"
  by (induction cs arbitrary: n) auto














subsection \<open>The journal of a pass\<close>

lemma run_Cons_andThen: "run c (cm # cms) = andThen (c cm) (run c cms)"
  by (rule ext) (simp add: andThen_def)

lemma run_Nil: "run c [] = (\<lambda>w. (None, w))"
  by (rule ext) simp

lemma Ensure_run: "Ensure h rf lbls ors w = run (rfService h) (ensure_plan rf lbls ors) w"
  by (simp only: Ensure_def ensure_plan_def run_Cons_andThen run_Nil if_distrib [of "rfService h"])

lemma observed_handler_simps [simp]:
  "rfService (observed_handler h) = logged Ensured (rfService h)"
  "CheckAndHeal (observed_handler h) = logged Healed (CheckAndHeal h)"
  "Validate (observed_handler h) = Validate h"
  "getLabels (observed_handler h) rf = getLabels h rf"
  "createOwnerReferences (observed_handler h) rf = createOwnerReferences h rf"
  "mClient (observed_handler h) m (tr, w) = (tr @ [Metric m], mClient h m w)"
  "GetRedisesIPandHostIPs (observed_handler h) rf (tr, w) =
     (case GetRedisesIPandHostIPs h rf w of (r, w') \<Rightarrow> (r, (tr @ [Listed rf r], w')))"
  "UpdateRedisFailovers (observed_handler h) ns = logged (Updated ns) (UpdateRedisFailovers h ns)"
  by (simp_all add: observed_handler_def getLabels_def createOwnerReferences_def defaultLabels_def)

lemma Ensure_observed:
  "Ensure (observed_handler h) rf lbls ors (tr, w) =
     (fst (Ensure h rf lbls ors w),
      (tr @ map (\<lambda>(c, e). Ensured c e) (answers (rfService h) (ensure_plan rf lbls ors) w),
       snd (Ensure h rf lbls ors w)))"
  by (simp add: Ensure_run run_logged)

lemma setRedisFailoverStatus_observed:
  "setRedisFailoverStatus (observed_handler h) rf (tr, w) =
     (case GetRedisesIPandHostIPs h rf w of
        (Inl err, w1) \<Rightarrow>
          (stage_error (Listed rf (Inl err)), rf, (tr @ [Listed rf (Inl err)], w1))
      | (Inr redisNodes, w1) \<Rightarrow>
          (let rf' = rf\<lparr>Status := (Status rf)\<lparr>RedisNodes := redisNodes\<rparr>\<rparr>
           in case UpdateRedisFailovers h (Namespace rf) rf' w1 of
                (e, w2) \<Rightarrow>
                  (e, rf', (tr @ [Listed rf (Inr redisNodes), Updated (Namespace rf) rf' e], w2))))"
  by (auto simp: setRedisFailoverStatus_def logged_def Let_def split: prod.splits sum.splits option.splits)

lemma Add_shapes:
  assumes v: "Validate h rf0 = (v, rf)"
    and add: "Add (observed_handler h) (RedisFailoverObject rf0) ([], w) = (res, (tr, w'))"
  shows "(\<exists>e. v = Some e \<and> res = Some e \<and> tr = [Metric (SetClusterError (Namespace rf) (Name rf))])
   \<or> (v = None \<and> (\<exists>k<7. \<exists>e. res = Some e \<and>
         tr = map (\<lambda>c. Ensured c None) (take k (ensure_plan rf (getLabels h rf) (createOwnerReferences h rf)))
              @ [Ensured (ensure_plan rf (getLabels h rf) (createOwnerReferences h rf) ! k) (Some e),
                 Metric (SetClusterError (Namespace rf) (Name rf))]))
   \<or> (v = None \<and> (\<exists>e. res = Some e \<and>
         tr = map (\<lambda>c. Ensured c None) (ensure_plan rf (getLabels h rf) (createOwnerReferences h rf))
              @ [Healed rf (Some e), Metric (SetClusterError (Namespace rf) (Name rf))]))
   \<or> (v = None \<and> (\<exists>e. res = stage_error (Listed rf (Inl e)) \<and>
         tr = map (\<lambda>c. Ensured c None) (ensure_plan rf (getLabels h rf) (createOwnerReferences h rf))
              @ [Healed rf None, Listed rf (Inl e)]))
   \<or> (v = None \<and> (\<exists>ns e. res = Some e \<and>
         tr = map (\<lambda>c. Ensured c None) (ensure_plan rf (getLabels h rf) (createOwnerReferences h rf))
              @ [Healed rf None, Listed rf (Inr ns),
                 Updated (Namespace rf) (rf\<lparr>Status := (Status rf)\<lparr>RedisNodes := ns\<rparr>\<rparr>) (Some e)]))
   \<or> (v = None \<and> res = None \<and> (\<exists>ns.
         tr = map (\<lambda>c. Ensured c None) (ensure_plan rf (getLabels h rf) (createOwnerReferences h rf))
              @ [Healed rf None, Listed rf (Inr ns),
                 Updated (Namespace rf) (rf\<lparr>Status := (Status rf)\<lparr>RedisNodes := ns\<rparr>\<rparr>) None,
                 Metric (SetClusterOK (Namespace rf) (Name rf))]))"
proof (cases v)
  case (Some e)
  with v add show ?thesis by (auto simp: Add_def)
next
  case None
  let ?plan = "ensure_plan rf (getLabels h rf) (createOwnerReferences h rf)"
  obtain er w1 where E: "Ensure h rf (getLabels h rf) (createOwnerReferences h rf) w = (er, w1)"
    by (cases "Ensure h rf (getLabels h rf) (createOwnerReferences h rf) w")
  show ?thesis
  proof (cases er)
    case (Some e)
    with E have "fst (run (rfService h) ?plan w) = Some e" by (simp add: Ensure_run)
    from answers_Some [OF this] obtain k where k: "k < length ?plan"
      "answers (rfService h) ?plan w = map (\<lambda>cm. (cm, None)) (take k ?plan) @ [(?plan ! k, Some e)]"
      by blast
    have "k < 7" using k(1) by (simp add: ensure_plan_def)
    moreover have "res = Some e \<and> tr = map (\<lambda>c. Ensured c None) (take k ?plan)
              @ [Ensured (?plan ! k) (Some e), Metric (SetClusterError (Namespace rf) (Name rf))]"
      using v add None E Some k(2) by (auto simp: Add_def Ensure_observed Let_def comp_def)
    ultimately show ?thesis using None by blast
  next
    case eNone: None
    with E have "fst (run (rfService h) ?plan w) = None" by (simp add: Ensure_run)
    from answers_None [OF this]
    have a: "answers (rfService h) ?plan w = map (\<lambda>cm. (cm, None)) ?plan" .
    obtain hr w2 where H: "CheckAndHeal h rf w1 = (hr, w2)" by (cases "CheckAndHeal h rf w1")
    show ?thesis
    proof (cases hr)
      case (Some e)
      have "res = Some e \<and> tr = map (\<lambda>c. Ensured c None) ?plan
              @ [Healed rf (Some e), Metric (SetClusterError (Namespace rf) (Name rf))]"
        using v add None E eNone a H Some
        by (auto simp: Add_def Ensure_observed Let_def comp_def logged_def)
      then show ?thesis using None by blast
    next
      case hNone: None
      obtain lr w3 where L: "GetRedisesIPandHostIPs h rf w2 = (lr, w3)"
        by (cases "GetRedisesIPandHostIPs h rf w2")
      show ?thesis
      proof (cases lr)
        case (Inl e)
        have "res = stage_error (Listed rf (Inl e)) \<and> tr = map (\<lambda>c. Ensured c None) ?plan
              @ [Healed rf None, Listed rf (Inl e)]"
          using v add None E eNone a H hNone L Inl
          by (auto simp: Add_def Ensure_observed Let_def comp_def logged_def
              setRedisFailoverStatus_observed)
        then show ?thesis using None by blast
      next
        case (Inr ns)
        obtain ur w4 where U: "UpdateRedisFailovers h (Namespace rf)
            (rf\<lparr>Status := (Status rf)\<lparr>RedisNodes := ns\<rparr>\<rparr>) w3 = (ur, w4)"
          by (cases "UpdateRedisFailovers h (Namespace rf)
            (rf\<lparr>Status := (Status rf)\<lparr>RedisNodes := ns\<rparr>\<rparr>) w3")
        show ?thesis
        proof (cases ur)
          case (Some e)
          have "res = Some e \<and> tr = map (\<lambda>c. Ensured c None) ?plan
              @ [Healed rf None, Listed rf (Inr ns),
                 Updated (Namespace rf) (rf\<lparr>Status := (Status rf)\<lparr>RedisNodes := ns\<rparr>\<rparr>) (Some e)]"
            using v add None E eNone a H hNone L Inr U Some
            by (auto simp: Add_def Ensure_observed Let_def comp_def logged_def
                setRedisFailoverStatus_observed)
          then show ?thesis using None by blast
        next
          case uNone: None
          have "res = None \<and> tr = map (\<lambda>c. Ensured c None) ?plan
              @ [Healed rf None, Listed rf (Inr ns),
                 Updated (Namespace rf) (rf\<lparr>Status := (Status rf)\<lparr>RedisNodes := ns\<rparr>\<rparr>) None,
                 Metric (SetClusterOK (Namespace rf) (Name rf))]"
            using v add None E eNone a H hNone L Inr U uNone
            by (auto simp: Add_def Ensure_observed Let_def comp_def logged_def
                setRedisFailoverStatus_observed)
          then show ?thesis using None by blast
        qed
      qed
    qed
  qed
qed

lemma Add_sorted:
  assumes "Validate h rf0 = (v, rf)"
    and "Add (observed_handler h) (RedisFailoverObject rf0) ([], w) = (res, (tr, w'))"
  shows "sorted (map stage tr)"
  using Add_shapes [OF assms]
  by (elim disjE exE conjE) (auto simp: sorted_append comp_def sorted_map)

lemma distinct_ensure_plan: "distinct (ensure_plan rf lbls ors)"
  by (simp add: ensure_plan_def)

lemma nth_notin_take:
  assumes "distinct xs" and "k < length xs"
  shows "xs ! k \<notin> set (take k xs)"
proof
  assume "xs ! k \<in> set (take k xs)"
  then obtain i where "i < length (take k xs)" and "take k xs ! i = xs ! k"
    by (auto simp: in_set_conv_nth)
  with assms(2) have "i < k" and "xs ! i = xs ! k" by simp_all
  with assms show False by (simp add: nth_eq_iff_index_eq)
qed

lemma Add_distinct:
  assumes "Validate h rf0 = (v, rf)"
    and "Add (observed_handler h) (RedisFailoverObject rf0) ([], w) = (res, (tr, w'))"
  shows "distinct (map call_of tr)"
  using Add_shapes [OF assms]
  by (elim disjE exE conjE)
    (auto simp: comp_def distinct_map inj_on_def distinct_ensure_plan nth_notin_take
       ensure_plan_def dest: in_set_takeD)

lemma Add_failure_last:
  assumes "Validate h rf0 = (v, rf)"
    and "Add (observed_handler h) (RedisFailoverObject rf0) ([], w) = (res, (tr, w'))"
  shows "\<forall>ev\<in>set tr. \<forall>e. stage_error ev = Some e \<longrightarrow>
           res = Some e \<and> last (filter (\<lambda>x. stage x \<noteq> 4) tr) = ev"
  using Add_shapes [OF assms]
  by (elim disjE exE conjE) (auto simp: comp_def filter_map)

lemma Add_success_iff:
  assumes "Validate h rf0 = (v, rf)"
    and "Add (observed_handler h) (RedisFailoverObject rf0) ([], w) = (res, (tr, w'))"
  shows "res = None \<longleftrightarrow> v = None \<and> (\<forall>ev\<in>set tr. stage_error ev = None)"
  using Add_shapes [OF assms]
  by (elim disjE exE conjE) auto

lemma Add_invalid:
  assumes "Validate h rf0 = (Some e, rf)"
    and "Add (observed_handler h) (RedisFailoverObject rf0) ([], w) = (res, (tr, w'))"
  shows "res = Some e \<and> tr = [Metric (SetClusterError (Namespace rf) (Name rf))]
           \<and> w' = mClient h (SetClusterError (Namespace rf) (Name rf)) w"
  using assms by (auto simp: Add_def)

lemma Add_status_after_success:
  assumes "Validate h rf0 = (v, rf)"
    and "Add (observed_handler h) (RedisFailoverObject rf0) ([], w) = (res, (tr, w'))"
    and "Updated ns rf' r \<in> set tr"
  shows "v = None \<and> Healed rf None \<in> set tr
       \<and> (\<forall>c\<in>set (ensure_plan rf (getLabels h rf) (createOwnerReferences h rf)).
             Ensured c None \<in> set tr)"
  using Add_shapes [OF assms(1,2)] assms(3)
  by (elim disjE exE conjE) auto

lemma Add_success_shape:
  assumes "Validate h rf0 = (v, rf)"
    and "Add (observed_handler h) (RedisFailoverObject rf0) ([], w) = (res, (tr, w'))"
    and "res = None"
  shows "\<exists>ns. tr = map (\<lambda>c. Ensured c None)
                      (ensure_plan rf (getLabels h rf) (createOwnerReferences h rf))
                   @ [Healed rf None, Listed rf (Inr ns),
                      Updated (Namespace rf) (rf\<lparr>Status := (Status rf)\<lparr>RedisNodes := ns\<rparr>\<rparr>) None,
                      Metric (SetClusterOK (Namespace rf) (Name rf))]"
  using Add_shapes [OF assms(1,2)] assms(3)
  by (elim disjE exE conjE) auto

section \<open>The quorum passed to a sentinel\<close>

text \<open>
  C1, as the code has it. \<^verbatim>\<open>NewSentinelMonitor\<close> issues one call, \<^verbatim>\<open>MonitorRedis\<close>,
  whose quorum is the decimal rendering of the declared sentinel replica count of the
  resource halved (truncating towards zero) plus one. It is computed anew in every
  call from the resource and stored nowhere: the call to the client is the operation's
  only effect. For a declared count \<open>N \<ge> 0\<close> it is \<open>floor(N/2) + 1\<close>, and for the
  declared counts 1, 2, 3 and 5 it is 1, 2, 2 and 3. The number of sentinels that are
  live does not enter.
\<close>

theorem quorum_from_declared_replicas:
  "NewSentinelMonitor (observed r) ip monitor rf (tr, w) =
     (let declared = sint (Sentinel_Replicas (Sentinel (Spec rf)));
          cm = MonitorRedis ip monitor (Itoa (declared sdiv 2 + 1));
          answer = redisClient r cm w
      in (fst answer, (tr @ [(cm, fst answer)], snd answer)))
   \<and> (0 \<le> sint (Sentinel_Replicas (Sentinel (Spec rf))) \<longrightarrow>
        sint (getQuorum rf) = spec_quorum (nat (sint (Sentinel_Replicas (Sentinel (Spec rf))))))
   \<and> (sint (Sentinel_Replicas (Sentinel (Spec rf))) = 1 \<longrightarrow> sint (getQuorum rf) = 1)
   \<and> (sint (Sentinel_Replicas (Sentinel (Spec rf))) = 2 \<longrightarrow> sint (getQuorum rf) = 2)
   \<and> (sint (Sentinel_Replicas (Sentinel (Spec rf))) = 3 \<longrightarrow> sint (getQuorum rf) = 2)
   \<and> (sint (Sentinel_Replicas (Sentinel (Spec rf))) = 5 \<longrightarrow> sint (getQuorum rf) = 3)"
proof -
  have a: "NewSentinelMonitor (observed r) ip monitor rf (tr, w) =
     (let declared = sint (Sentinel_Replicas (Sentinel (Spec rf)));
          cm = MonitorRedis ip monitor (Itoa (declared sdiv 2 + 1));
          answer = redisClient r cm w
      in (fst answer, (tr @ [(cm, fst answer)], snd answer)))"
    by (simp add: NewSentinelMonitor_observed sint_getQuorum Let_def)
  have b: "0 \<le> sint (Sentinel_Replicas (Sentinel (Spec rf))) \<longrightarrow>
        sint (getQuorum rf) = spec_quorum (nat (sint (Sentinel_Replicas (Sentinel (Spec rf)))))"
    by (simp add: sint_getQuorum sdiv2_nonneg spec_quorum_def)
  show ?thesis using a b quorum_law [of rf] by blast
qed

text \<open>The declared counts 1, 2, 3 and 5, on a healer whose client accepts every call.\<close>

theorem quorum_from_declared_replicas_witness:
  "sint (getQuorum (rf_sentinels 1)) = 1 \<and> sint (getQuorum (rf_sentinels 2)) = 2
   \<and> sint (getQuorum (rf_sentinels 3)) = 2 \<and> sint (getQuorum (rf_sentinels 5)) = 3
   \<and> sint (getQuorum (rf_sentinels 3)) = spec_quorum 3"
proof -
  have s: "sint (Sentinel_Replicas (Sentinel (Spec (rf_sentinels 1)))) = 1"
    "sint (Sentinel_Replicas (Sentinel (Spec (rf_sentinels 2)))) = 2"
    "sint (Sentinel_Replicas (Sentinel (Spec (rf_sentinels 3)))) = 3"
    "sint (Sentinel_Replicas (Sentinel (Spec (rf_sentinels 5)))) = 5"
    by (simp_all add: rf_sentinels_def)
  show ?thesis
    using quorum_from_declared_replicas [of "healer_example always_ok []" "''10.0.1.1''" "''10.0.0.1''" "rf_sentinels 1" "[]" "()"]
      quorum_from_declared_replicas [of "healer_example always_ok []" "''10.0.1.1''" "''10.0.0.1''" "rf_sentinels 2" "[]" "()"]
      quorum_from_declared_replicas [of "healer_example always_ok []" "''10.0.1.1''" "''10.0.0.1''" "rf_sentinels 3" "[]" "()"]
      quorum_from_declared_replicas [of "healer_example always_ok []" "''10.0.1.1''" "''10.0.0.1''" "rf_sentinels 5" "[]" "()"]
    by (simp add: s)
qed

text \<open>
  C1 as stated fails: with three sentinels declared and a single sentinel live, the
  sentinel is told the quorum 2, where the live count gives \<open>floor(1/2) + 1 = 1\<close>.
\<close>

theorem quorum_ignores_live_sentinels:
  "fst (snd (NewSentinelMonitor (observed (healer_example always_ok [])) ''10.0.1.1'' ''10.0.0.1''
               (rf_sentinels 3) ([], one_live_sentinel)))
     = [(MonitorRedis ''10.0.1.1'' ''10.0.0.1'' ''2'', None)]
   \<and> Itoa (spec_quorum (length one_live_sentinel)) = ''1''"
  by (simp add: NewSentinelMonitor_observed sint_getQuorum healer_example_def always_ok_def
      rf_sentinels_def one_live_sentinel_def spec_quorum_def Itoa_def digits.simps digit_def
      signed_divide_int_def)

text \<open>
  C8. A pass validates the resource before anything else, and validation (a function
  that is not part of the sources at hand) rejects, by the specification, a replica
  count that is not positive; the declared sentinel replica count is the number of
  replicas of the sentinel deployment. For every resource whose declared sentinel
  replica count is a count, that is, not negative, the derived quorum is at least 1,
  and it is this value, in decimal, that \<^verbatim>\<open>NewSentinelMonitor\<close> passes to the
  sentinel in its one call to the client.
\<close>

theorem quorum_at_least_one:
  assumes "0 \<le> sint (Sentinel_Replicas (Sentinel (Spec rf)))"
  shows "1 \<le> sint (getQuorum rf)
       \<and> NewSentinelMonitor (observed r) ip monitor rf (tr, w) =
           (let cm = MonitorRedis ip monitor (Itoa (sint (getQuorum rf)));
                answer = redisClient r cm w
            in (fst answer, (tr @ [(cm, fst answer)], snd answer)))"
proof -
  let ?k = "sint (Sentinel_Replicas (Sentinel (Spec rf)))"
  have "(0 \<le> ?k sdiv 2) = (- 1 \<le> ?k)" by (rule sdiv2_ge0_iff)
  with assms have "1 \<le> ?k sdiv 2 + 1" by linarith
  then have "1 \<le> sint (getQuorum rf)" by (simp only: sint_getQuorum)
  then show ?thesis by (simp add: NewSentinelMonitor_observed Let_def)
qed

text \<open>
  Three sentinels declared: the quorum is 2, and the sentinel at 10.0.1.1 is told
  \<open>2\<close>.
\<close>

theorem quorum_at_least_one_witness:
  "0 \<le> sint (Sentinel_Replicas (Sentinel (Spec (rf_sentinels 3))))
   \<and> 1 \<le> sint (getQuorum (rf_sentinels 3))
   \<and> NewSentinelMonitor (observed (healer_example always_ok [])) ''10.0.1.1'' ''10.0.0.1''
         (rf_sentinels 3) ([], ())
       = (None, ([(MonitorRedis ''10.0.1.1'' ''10.0.0.1'' ''2'', None)], ()))"
proof -
  have h: "0 \<le> sint (Sentinel_Replicas (Sentinel (Spec (rf_sentinels 3))))"
    by (simp add: rf_sentinels_def)
  have q: "Itoa (sint (getQuorum (rf_sentinels 3))) = ''2''"
    by (simp add: sint_getQuorum rf_sentinels_def signed_divide_int_def Itoa_def digits.simps
        digit_def)
  from quorum_at_least_one [OF h, of "healer_example always_ok []" "''10.0.1.1''" "''10.0.0.1''"
      "[]" "()"] h
  show ?thesis by (simp add: q Let_def always_ok_def)
qed

section \<open>Choosing and asserting the master\<close>

text \<open>
  C3. Let the pods of the Redis statefulset be listed, at least one of them, each with an
  address (a pod that is live has one), and let \<^verbatim>\<open>sort.Slice\<close> keep its promise: the
  result is a permutation of the list in which no pod comes before a pod created
  earlier. Then the pods are worked on in ascending order of creation; the first call
  is \<^verbatim>\<open>MakeMaster\<close> to the pod at the head of that order, a pod created no later than
  any other; every further call is \<^verbatim>\<open>MakeSlaveOf\<close> to the next of the other pods with
  the address of that first pod as master; and when the operation returns without
  error, every other pod has received its \<^verbatim>\<open>MakeSlaveOf\<close> and no second
  \<^verbatim>\<open>MakeMaster\<close> has been issued. (The loop tells "no master chosen yet" by the empty
  address, so the theorem says nothing about a list whose pods lack an address.)
\<close>

theorem SetOldestAsMaster_promotes_oldest:
  assumes l: "GetStatefulSetPods r (Namespace rf) (GetRedisName r rf) = Inr pods"
    and ne: "pods \<noteq> []"
    and live: "\<forall>p\<in>set pods. Pod_PodIP p \<noteq> ''''"
    and perm: "mset (sort_Slice r (\<lambda>pi pj. Before (CreationTimestamp pi) (CreationTimestamp pj)) pods)
                 = mset pods"
    and ordered: "sorted_wrt (\<lambda>pi pj. \<not> Before (CreationTimestamp pj) (CreationTimestamp pi))
                    (sort_Slice r (\<lambda>pi pj. Before (CreationTimestamp pi) (CreationTimestamp pj)) pods)"
    and run: "SetOldestAsMaster (observed r) rf ([], w) = (res, (tr, w'))"
  shows "\<exists>oldest others.
           sort_Slice r (\<lambda>pi pj. Before (CreationTimestamp pi) (CreationTimestamp pj)) pods
             = oldest # others
         \<and> mset (oldest # others) = mset pods
         \<and> sorted (map CreationTimestamp (oldest # others))
         \<and> (\<forall>p\<in>set pods. CreationTimestamp oldest \<le> CreationTimestamp p)
         \<and> (let plan = MakeMaster (Pod_PodIP oldest) (Password (Redis (Spec rf)))
                          # map (\<lambda>p. MakeSlaveOf (Pod_PodIP p) (Pod_PodIP oldest)
                                        (Password (Redis (Spec rf)))) others
             in tr \<noteq> [] \<and> map fst tr = take (length tr) plan
                \<and> (res = None \<longrightarrow> tr = map (\<lambda>cm. (cm, None)) plan))"
proof -
  let ?s = "sort_Slice r (\<lambda>pi pj. Before (CreationTimestamp pi) (CreationTimestamp pj)) pods"
  let ?pw = "Password (Redis (Spec rf))"
  from perm ne have "?s \<noteq> []" by auto
  then obtain oldest others where s: "?s = oldest # others" by (cases ?s) auto
  from perm have set: "set ?s = set pods" by (rule mset_eq_setD)
  from perm s have ms: "mset (oldest # others) = mset pods" by simp
  from ordered s have srt: "sorted (map CreationTimestamp (oldest # others))"
    by (simp add: sorted_map Before_def not_less)
  have least: "\<forall>p\<in>set pods. CreationTimestamp oldest \<le> CreationTimestamp p"
  proof
    fix p assume "p \<in> set pods"
    with set s have "p = oldest \<or> p \<in> set others" by auto
    then show "CreationTimestamp oldest \<le> CreationTimestamp p"
      using ordered s by (auto simp: Before_def)
  qed
  from set s live have ip: "Pod_PodIP oldest \<noteq> ''''" by auto
  let ?plan = "MakeMaster (Pod_PodIP oldest) ?pw
                 # map (\<lambda>p. MakeSlaveOf (Pod_PodIP p) (Pod_PodIP oldest) ?pw) others"
  have plan: "oldest_plan ?pw '''' ?s = ?plan"
    using s ip by (simp add: oldest_plan_chosen)
  from run l ne plan have res: "res = fst (run (redisClient r) ?plan w)"
    and tr: "tr = answers (redisClient r) ?plan w"
    by (simp_all add: SetOldestAsMaster_observed Let_def)
  have a: "tr \<noteq> []" unfolding tr by (rule answers_nonempty) simp
  have b: "map fst tr = take (length tr) ?plan" unfolding tr by (rule answers_prefix)
  have c: "res = None \<longrightarrow> tr = map (\<lambda>cm. (cm, None)) ?plan"
  proof
    assume "res = None"
    with res have "fst (run (redisClient r) ?plan w) = None" by (simp only:)
    then have "answers (redisClient r) ?plan w = map (\<lambda>cm. (cm, None)) ?plan"
      by (rule answers_None)
    with tr show "tr = map (\<lambda>cm. (cm, None)) ?plan" by (simp only:)
  qed
  from a b c have "let plan = ?plan in tr \<noteq> [] \<and> map fst tr = take (length tr) plan
                \<and> (res = None \<longrightarrow> tr = map (\<lambda>cm. (cm, None)) plan)"
    unfolding Let_def by blast
  with s ms srt least show ?thesis by blast
qed

text \<open>
  The pods listed in the creation order \<open>[t2, t1, t3]\<close>: the pod created at
  \<open>t1\<close> becomes master, the other two its replicas.
\<close>

theorem SetOldestAsMaster_promotes_oldest_witness:
  "SetOldestAsMaster (observed (healer_example always_ok [pod_t2, pod_t1, pod_t3]))
       (rf_sentinels 3) ([], ())
     = (None, ([(MakeMaster ''10.0.0.1'' ''secret'', None),
                (MakeSlaveOf ''10.0.0.2'' ''10.0.0.1'' ''secret'', None),
                (MakeSlaveOf ''10.0.0.3'' ''10.0.0.1'' ''secret'', None)], ()))"
proof -
  let ?r = "healer_example always_ok [pod_t2, pod_t1, pod_t3]"
  let ?lt = "\<lambda>pi pj. Before (CreationTimestamp pi) (CreationTimestamp pj)"
  have l: "GetStatefulSetPods ?r (Namespace (rf_sentinels 3)) (GetRedisName ?r (rf_sentinels 3))
             = Inr [pod_t2, pod_t1, pod_t3]"
    by simp
  have ne: "[pod_t2, pod_t1, pod_t3] \<noteq> []" by simp
  have live: "\<forall>p\<in>set [pod_t2, pod_t1, pod_t3]. Pod_PodIP p \<noteq> ''''"
    by (simp add: pod_t1_def pod_t2_def pod_t3_def)
  have s: "sort_Slice ?r ?lt [pod_t2, pod_t1, pod_t3] = [pod_t1, pod_t2, pod_t3]"
    by (simp add: insertion_sort_creation_order_example)
  have perm: "mset (sort_Slice ?r ?lt [pod_t2, pod_t1, pod_t3]) = mset [pod_t2, pod_t1, pod_t3]"
    unfolding s by simp
  have ordered: "sorted_wrt (\<lambda>pi pj. \<not> Before (CreationTimestamp pj) (CreationTimestamp pi))
                   (sort_Slice ?r ?lt [pod_t2, pod_t1, pod_t3])"
    unfolding s by (simp add: Before_def pod_t1_def pod_t2_def pod_t3_def)
  obtain tr where run: "SetOldestAsMaster (observed ?r) (rf_sentinels 3) ([], ()) = (None, (tr, ()))"
    by (simp add: SetOldestAsMaster_observed insertion_sort_creation_order_example Let_def
        always_ok_def)
  from SetOldestAsMaster_promotes_oldest [OF l ne live perm ordered run]
  have "tr = [(MakeMaster ''10.0.0.1'' ''secret'', None),
                (MakeSlaveOf ''10.0.0.2'' ''10.0.0.1'' ''secret'', None),
                (MakeSlaveOf ''10.0.0.3'' ''10.0.0.1'' ''secret'', None)]"
    unfolding s by (auto simp: Let_def pod_t1_def pod_t2_def pod_t3_def)
  with run show ?thesis by simp
qed

text \<open>
  C4. \<^verbatim>\<open>SetMasterOnAll\<close> works through the listed pods in listing order; the call for
  a pod is \<^verbatim>\<open>MakeMaster\<close> for the given address when the pod's address is the given
  one and \<^verbatim>\<open>MakeSlaveOf\<close> with the given address as master otherwise. The calls it
  has issued are always the first so many of these, at least one when a pod is listed;
  when it returns without error it has issued all of them and every one has succeeded,
  so that every pod other than the one at the given address has been told to follow
  it. What \<^verbatim>\<open>MakeMaster\<close> does to a node that is master already is the node's answer
  to the command, not the healer's doing.
\<close>

theorem SetMasterOnAll_repoints_all:
  assumes l: "GetStatefulSetPods r (Namespace rf) (GetRedisName r rf) = Inr pods"
    and run: "SetMasterOnAll (observed r) masterIP rf ([], w) = (res, (tr, w'))"
  shows "(let plan = map (\<lambda>pod. if Pod_PodIP pod = masterIP
                                  then MakeMaster masterIP (Password (Redis (Spec rf)))
                                  else MakeSlaveOf (Pod_PodIP pod) masterIP
                                         (Password (Redis (Spec rf)))) pods
          in map fst tr = take (length tr) plan
           \<and> (pods \<noteq> [] \<longrightarrow> tr \<noteq> [])
           \<and> (res = None \<longrightarrow>
                 tr = map (\<lambda>cm. (cm, None)) plan
               \<and> (\<forall>pod\<in>set pods. Pod_PodIP pod \<noteq> masterIP \<longrightarrow>
                     (MakeSlaveOf (Pod_PodIP pod) masterIP (Password (Redis (Spec rf))), None)
                       \<in> set tr)
               \<and> (\<forall>pod\<in>set pods. Pod_PodIP pod = masterIP \<longrightarrow>
                     (MakeMaster masterIP (Password (Redis (Spec rf))), None) \<in> set tr)))"
proof -
  let ?pw = "Password (Redis (Spec rf))"
  let ?plan = "master_plan ?pw masterIP pods"
  from l run have res: "res = fst (run (redisClient r) ?plan w)"
    and tr: "tr = answers (redisClient r) ?plan w"
    by (simp_all add: SetMasterOnAll_observed Let_def)
  have a: "map fst tr = take (length tr) ?plan" unfolding tr by (rule answers_prefix)
  have b: "pods \<noteq> [] \<longrightarrow> tr \<noteq> []"
  proof
    assume "pods \<noteq> []"
    then have "?plan \<noteq> []" by (simp add: master_plan_def)
    then show "tr \<noteq> []" unfolding tr by (rule answers_nonempty)
  qed
  have c: "res = None \<longrightarrow> tr = map (\<lambda>cm. (cm, None)) ?plan"
  proof
    assume "res = None"
    with res have "fst (run (redisClient r) ?plan w) = None" by (simp only:)
    then have "answers (redisClient r) ?plan w = map (\<lambda>cm. (cm, None)) ?plan"
      by (rule answers_None)
    with tr show "tr = map (\<lambda>cm. (cm, None)) ?plan" by (simp only:)
  qed
  have d: "tr = map (\<lambda>cm. (cm, None)) ?plan \<Longrightarrow>
             (\<forall>pod\<in>set pods. Pod_PodIP pod \<noteq> masterIP \<longrightarrow>
                     (MakeSlaveOf (Pod_PodIP pod) masterIP ?pw, None) \<in> set tr)
           \<and> (\<forall>pod\<in>set pods. Pod_PodIP pod = masterIP \<longrightarrow>
                     (MakeMaster masterIP ?pw, None) \<in> set tr)"
    by (auto simp: master_plan_def image_iff)
  from a b c d show ?thesis unfolding Let_def master_plan_def by blast
qed

text \<open>
  Three pods, the second of which has the given address.
\<close>

theorem SetMasterOnAll_repoints_all_witness:
  "SetMasterOnAll (observed (healer_example always_ok [pod_t2, pod_t1, pod_t3])) ''10.0.0.1''
       (rf_sentinels 3) ([], ())
     = (None, ([(MakeSlaveOf ''10.0.0.2'' ''10.0.0.1'' ''secret'', None),
                (MakeMaster ''10.0.0.1'' ''secret'', None),
                (MakeSlaveOf ''10.0.0.3'' ''10.0.0.1'' ''secret'', None)], ()))"
proof -
  let ?r = "healer_example always_ok [pod_t2, pod_t1, pod_t3]"
  have l: "GetStatefulSetPods ?r (Namespace (rf_sentinels 3)) (GetRedisName ?r (rf_sentinels 3))
             = Inr [pod_t2, pod_t1, pod_t3]"
    by simp
  obtain tr where run:
    "SetMasterOnAll (observed ?r) ''10.0.0.1'' (rf_sentinels 3) ([], ()) = (None, (tr, ()))"
    by (simp add: SetMasterOnAll_observed master_plan_def Let_def always_ok_def)
  from SetMasterOnAll_repoints_all [OF l run]
  have "tr = [(MakeSlaveOf ''10.0.0.2'' ''10.0.0.1'' ''secret'', None),
              (MakeMaster ''10.0.0.1'' ''secret'', None),
              (MakeSlaveOf ''10.0.0.3'' ''10.0.0.1'' ''secret'', None)]"
    by (simp add: Let_def pod_t1_def pod_t2_def pod_t3_def)
  with run show ?thesis by simp
qed

text \<open>
  C6. In both operations a call that answers with an error is the last call issued,
  and its error is what the operation returns: no later call is made whose answer could
  take its place. Whenever a call has been issued, the operation returns the answer of
  the last one; so it returns without error only when every call it issued succeeded,
  and then it has issued one call for each pod.
\<close>

theorem node_errors_surface:
  "(SetOldestAsMaster (observed r) rf ([], w) = (res, (tr, w')) \<longrightarrow>
      (\<forall>i<length tr. \<forall>e. snd (tr ! i) = Some e \<longrightarrow> Suc i = length tr \<and> res = Some e)
    \<and> (tr \<noteq> [] \<longrightarrow> res = snd (last tr))
    \<and> (\<forall>pods. GetStatefulSetPods r (Namespace rf) (GetRedisName r rf) = Inr pods
                  \<and> pods \<noteq> [] \<and> res = None \<longrightarrow>
          length tr
            = length (sort_Slice r
                        (\<lambda>pi pj. Before (CreationTimestamp pi) (CreationTimestamp pj)) pods)))
   \<and> (SetMasterOnAll (observed r) masterIP rf ([], w) = (res2, (tr2, w2)) \<longrightarrow>
      (\<forall>i<length tr2. \<forall>e. snd (tr2 ! i) = Some e \<longrightarrow> Suc i = length tr2 \<and> res2 = Some e)
    \<and> (tr2 \<noteq> [] \<longrightarrow> res2 = snd (last tr2))
    \<and> (\<forall>pods. GetStatefulSetPods r (Namespace rf) (GetRedisName r rf) = Inr pods
                  \<and> res2 = None \<longrightarrow> length tr2 = length pods))"
  by (auto simp: SetOldestAsMaster_observed SetMasterOnAll_observed Let_def answers_last
      answers_length_None master_plan_def
      split: sum.splits if_splits dest: answers_error_last)

text \<open>
  A client that refuses the second command: the operation returns the refusal, and
  the third pod is never contacted.
\<close>

theorem node_errors_surface_witness:
  "SetOldestAsMaster
       (observed (healer_example (refusing (MakeSlaveOf ''10.0.0.2'' ''10.0.0.1'' ''secret''))
                    [pod_t2, pod_t1, pod_t3]))
       (rf_sentinels 3) ([], ())
     = (Some ''connection refused'',
        ([(MakeMaster ''10.0.0.1'' ''secret'', None),
          (MakeSlaveOf ''10.0.0.2'' ''10.0.0.1'' ''secret'', Some ''connection refused'')], ()))
   \<and> SetMasterOnAll
       (observed (healer_example (refusing (MakeMaster ''10.0.0.1'' ''secret''))
                    [pod_t2, pod_t1, pod_t3]))
       ''10.0.0.1'' (rf_sentinels 3) ([], ())
     = (Some ''connection refused'',
        ([(MakeSlaveOf ''10.0.0.2'' ''10.0.0.1'' ''secret'', None),
          (MakeMaster ''10.0.0.1'' ''secret'', Some ''connection refused'')], ()))"
proof -
  let ?r1 = "healer_example (refusing (MakeSlaveOf ''10.0.0.2'' ''10.0.0.1'' ''secret''))
               [pod_t2, pod_t1, pod_t3]"
  let ?r2 = "healer_example (refusing (MakeMaster ''10.0.0.1'' ''secret''))
               [pod_t2, pod_t1, pod_t3]"
  let ?tr1 = "[(MakeMaster ''10.0.0.1'' ''secret'', None),
          (MakeSlaveOf ''10.0.0.2'' ''10.0.0.1'' ''secret'', Some ''connection refused'')]"
  let ?tr2 = "[(MakeSlaveOf ''10.0.0.2'' ''10.0.0.1'' ''secret'', None),
          (MakeMaster ''10.0.0.1'' ''secret'', Some ''connection refused'')]"
  obtain res1 where run1:
    "SetOldestAsMaster (observed ?r1) (rf_sentinels 3) ([], ()) = (res1, (?tr1, ()))"
    by (simp add: SetOldestAsMaster_observed insertion_sort_def Before_def refusing_def
        pod_t1_def pod_t2_def pod_t3_def Let_def)
  obtain res2 where run2:
    "SetMasterOnAll (observed ?r2) ''10.0.0.1'' (rf_sentinels 3) ([], ()) = (res2, (?tr2, ()))"
    by (simp add: SetMasterOnAll_observed master_plan_def refusing_def
        pod_t1_def pod_t2_def pod_t3_def Let_def)
  have s1: "1 < length ?tr1" "snd (?tr1 ! 1) = Some ''connection refused''" by simp_all
  have s2: "1 < length ?tr2" "snd (?tr2 ! 1) = Some ''connection refused''" by simp_all
  have "res1 = Some ''connection refused''"
    using node_errors_surface [where r = ?r1 and rf = "rf_sentinels 3" and w = "()"
        and res = res1 and tr = ?tr1 and w' = "()", THEN conjunct1, THEN mp, OF run1,
        THEN conjunct1, THEN spec, THEN mp, OF s1(1), THEN spec, THEN mp, OF s1(2)]
    by (rule conjunct2)
  moreover have "res2 = Some ''connection refused''"
    using node_errors_surface [where r = ?r2 and rf = "rf_sentinels 3" and w = "()"
        and masterIP = "''10.0.0.1''" and ?res2.0 = res2 and ?tr2.0 = ?tr2 and ?w2.0 = "()",
        THEN conjunct2, THEN mp, OF run2,
        THEN conjunct1, THEN spec, THEN mp, OF s2(1), THEN spec, THEN mp, OF s2(2)]
    by (rule conjunct2)
  ultimately show ?thesis using run1 run2 by (simp only: simp_thms)
qed

text \<open>
  C9. When no pod is listed, \<^verbatim>\<open>SetOldestAsMaster\<close> returns the error
  \<open>number of redis pods are 0\<close> and leaves the journal and the world as they were:
  no call has been issued.
\<close>

theorem no_pods_no_command:
  assumes "GetStatefulSetPods r (Namespace rf) (GetRedisName r rf) = Inr []"
  shows "SetOldestAsMaster (observed r) rf (tr, w) = (Some ''number of redis pods are 0'', (tr, w))"
  using assms by (simp add: SetOldestAsMaster_observed)

text \<open>
  A statefulset without pods.
\<close>

theorem no_pods_no_command_witness:
  "SetOldestAsMaster (observed (healer_example always_ok [])) (rf_sentinels 3) ([], ())
     = (Some ''number of redis pods are 0'', ([], ()))"
  by (rule no_pods_no_command) simp

subsection \<open>The concrete handler and node processes\<close>

lemma handler_example_simps [simp]:
  "rfService (handler_example refused) c w = (if refused c then (Some ''forbidden'', w) else (None, w))"
  "GetRedisesIPandHostIPs (handler_example refused) rf w = (Inr nodes_seen, w)"
  "UpdateRedisFailovers (handler_example refused) ns rf w = (None, (fst w, Some rf))"
  "mClient (handler_example refused) m w = w"
  "Validate (handler_example refused) rf =
     (if sint (Redis_Replicas (Redis (Spec rf))) \<le> 0
      then (Some ''number of redises in spec is less than the minimum'', rf) else (None, rf))"
  "CheckAndHeal (handler_example refused) rf w = (None, w)"
  by (simp_all add: handler_example_def)

lemma rf_sentinels_spec_simps [simp]:
  "Enabled (Exporter (Redis (Spec (rf_sentinels n)))) = False"
  "Redis_Replicas (Redis (Spec (rf_sentinels n))) = 3"
  "Status (rf_sentinels n) = \<lparr>RedisNodes = [], SentinelNodes = []\<rparr>"
  by (simp_all add: rf_sentinels_def)

lemma rf_invalid_simps [simp]:
  "Redis_Replicas (Redis (Spec rf_invalid)) = 0"
  "Namespace rf_invalid = ''default''"
  "Name rf_invalid = ''cache''"
  by (simp_all add: rf_invalid_def rf_sentinels_def)

lemma rf_observed_eq:
  "(rf_sentinels 3)\<lparr>Status := \<lparr>RedisNodes = nodes_seen, SentinelNodes = []\<rparr>\<rparr> = rf_observed"
  by (simp add: rf_observed_def)

lemma Add_invalid_example:
  "Add (observed_handler (handler_example (\<lambda>c. False))) (RedisFailoverObject rf_invalid)
       ([], (one_live_sentinel, None))
     = (Some ''number of redises in spec is less than the minimum'',
        ([Metric (SetClusterError ''default'' ''cache'')], (one_live_sentinel, None)))"
  by (simp add: Add_def)

lemma Add_refused_example:
  "Add (observed_handler (handler_example refuses_config_map)) (RedisFailoverObject (rf_sentinels 3))
       ([], (one_live_sentinel, None))
     = (Some ''forbidden'',
        ([Ensured (EnsureNotPresentRedisService (rf_sentinels 3)) None,
          Ensured (EnsureSentinelService (rf_sentinels 3)
                     (getLabels (handler_example refuses_config_map) (rf_sentinels 3))
                     (createOwnerReferences (handler_example refuses_config_map) (rf_sentinels 3)))
            None,
          Ensured (EnsureSentinelConfigMap (rf_sentinels 3)
                     (getLabels (handler_example refuses_config_map) (rf_sentinels 3))
                     (createOwnerReferences (handler_example refuses_config_map) (rf_sentinels 3)))
            None,
          Ensured (EnsureRedisShutdownConfigMap (rf_sentinels 3)
                     (getLabels (handler_example refuses_config_map) (rf_sentinels 3))
                     (createOwnerReferences (handler_example refuses_config_map) (rf_sentinels 3)))
            None,
          Ensured (EnsureRedisConfigMap (rf_sentinels 3)
                     (getLabels (handler_example refuses_config_map) (rf_sentinels 3))
                     (createOwnerReferences (handler_example refuses_config_map) (rf_sentinels 3)))
            (Some ''forbidden''),
          Metric (SetClusterError ''default'' ''cache'')],
         (one_live_sentinel, None)))"
  by (simp add: Add_def Ensure_run ensure_plan_def logged_def refuses_config_map_def Let_def)

lemma Add_ok_example:
  "Add (observed_handler (handler_example (\<lambda>c. False))) (RedisFailoverObject (rf_sentinels 3))
       ([], (one_live_sentinel, None))
     = (None,
        (map (\<lambda>c. Ensured c None)
           (ensure_plan (rf_sentinels 3)
              (getLabels (handler_example (\<lambda>c. False)) (rf_sentinels 3))
              (createOwnerReferences (handler_example (\<lambda>c. False)) (rf_sentinels 3)))
         @ [Healed (rf_sentinels 3) None,
            Listed (rf_sentinels 3) (Inr nodes_seen),
            Updated ''default'' rf_observed None,
            Metric (SetClusterOK ''default'' ''cache'')],
         (one_live_sentinel, Some rf_observed)))"
  by (simp add: Add_def Ensure_run ensure_plan_def logged_def Let_def setRedisFailoverStatus_def
      rf_observed_eq)


section \<open>The pass: ensuring, healing, writing the status\<close>

text \<open>
  C2, as the code has it. When the checker answers with the Redis nodes, the status
  stage asks for nothing else: it replaces the list of Redis nodes in the status of the
  resource by the checker's answer as a whole, leaves the list of sentinel nodes as it
  came in, and sends the resource so changed to the object store. The sentinel list is
  never recomputed.
\<close>

theorem status_replaces_redis_nodes_only:
  assumes "GetRedisesIPandHostIPs h rf w = (Inr redisNodes, w1)"
  shows "setRedisFailoverStatus (observed_handler h) rf (tr, w) =
           (let rf' = rf\<lparr>Status := \<lparr>RedisNodes = redisNodes,
                                      SentinelNodes = SentinelNodes (Status rf)\<rparr>\<rparr>;
                answer = UpdateRedisFailovers h (Namespace rf) rf' w1
            in (fst answer, rf',
                (tr @ [Listed rf (Inr redisNodes), Updated (Namespace rf) rf' (fst answer)],
                 snd answer)))"
proof -
  have eq: "\<lparr>RedisNodes = redisNodes, SentinelNodes = SentinelNodes (Status rf)\<rparr>
          = (Status rf)\<lparr>RedisNodes := redisNodes\<rparr>"
    by simp
  show ?thesis
    unfolding eq using assms
    by (simp add: setRedisFailoverStatus_observed Let_def split: prod.splits)
qed

text \<open>
  A resource whose status lists a Redis node and a sentinel that are gone: the Redis
  list is replaced, the sentinel list is written back.
\<close>

theorem status_replaces_redis_nodes_only_witness:
  "setRedisFailoverStatus (observed_handler (handler_example (\<lambda>c. False))) rf_stale
       ([], (one_live_sentinel, None))
     = (None, rf_written,
        ([Listed rf_stale (Inr nodes_seen), Updated ''default'' rf_written None],
         (one_live_sentinel, Some rf_written)))"
proof -
  have l: "GetRedisesIPandHostIPs (handler_example (\<lambda>c. False)) rf_stale (one_live_sentinel, None)
             = (Inr nodes_seen, (one_live_sentinel, None))"
    by simp
  have w: "rf_stale\<lparr>Status := \<lparr>RedisNodes = nodes_seen,
                                  SentinelNodes = SentinelNodes (Status rf_stale)\<rparr>\<rparr> = rf_written"
    by (simp add: rf_stale_def rf_written_def)
  have n: "Namespace rf_stale = ''default''" by (simp add: rf_stale_def)
  from status_replaces_redis_nodes_only [OF l, of "[]"] show ?thesis
    by (simp add: Let_def w n)
qed

text \<open>
  C2 as stated fails. With one sentinel live and an incoming status that is empty, the
  status written has no sentinel node at all; with an incoming status that lists a
  sentinel long gone, the status written still lists it. In both runs the only listing
  made is that of the Redis nodes.
\<close>

theorem status_keeps_sentinel_list:
  "setRedisFailoverStatus (observed_handler (handler_example (\<lambda>c. False))) (rf_sentinels 3)
       ([], (one_live_sentinel, None))
     = (None, rf_observed,
        ([Listed (rf_sentinels 3) (Inr nodes_seen), Updated ''default'' rf_observed None],
         (one_live_sentinel, Some rf_observed)))
   \<and> length one_live_sentinel = 1
   \<and> SentinelNodes (Status rf_observed) = []
   \<and> setRedisFailoverStatus (observed_handler (handler_example (\<lambda>c. False))) rf_stale
       ([], (one_live_sentinel, None))
     = (None, rf_written,
        ([Listed rf_stale (Inr nodes_seen), Updated ''default'' rf_written None],
         (one_live_sentinel, Some rf_written)))
   \<and> SentinelNodes (Status rf_written) = SentinelNodes (Status rf_stale)
   \<and> SentinelNodes (Status rf_written)
       = [\<lparr>Sentinel_PodIP = ''10.0.1.9'', Sentinel_HostIP = ''192.168.1.19''\<rparr>]"
  by (simp add: setRedisFailoverStatus_observed Let_def rf_stale_def rf_written_def rf_observed_def
      rf_sentinels_def one_live_sentinel_def)

text \<open>
  C10. \<^verbatim>\<open>Ensure\<close> works through a fixed list of seven calls: first the Redis service,
  ensured when the exporter is enabled and ensured to be absent when it is not, then
  the sentinel service, the sentinel config map, the Redis shutdown config map, the
  Redis config map, the Redis statefulset and the sentinel deployment. When it returns
  without error it has made all seven calls in this order; when it returns an error,
  that error is the answer of some call of the list, every call before it has succeeded
  and no call after it has been made.
\<close>

theorem Ensure_fixed_order:
  assumes "Ensure (observed_handler h) rf lbls ors ([], w) = (res, (tr, w'))"
  shows "(let plan = [if Enabled (Exporter (Redis (Spec rf))) then EnsureRedisService rf lbls ors
                      else EnsureNotPresentRedisService rf,
                      EnsureSentinelService rf lbls ors,
                      EnsureSentinelConfigMap rf lbls ors,
                      EnsureRedisShutdownConfigMap rf lbls ors,
                      EnsureRedisConfigMap rf lbls ors,
                      EnsureRedisStatefulset rf lbls ors,
                      EnsureSentinelDeployment rf lbls ors]
          in (res = None \<longrightarrow> tr = map (\<lambda>c. Ensured c None) plan)
           \<and> (\<forall>e. res = Some e \<longrightarrow>
                 (\<exists>k<7. tr = map (\<lambda>c. Ensured c None) (take k plan) @ [Ensured (plan ! k) (Some e)])))"
proof -
  let ?plan = "ensure_plan rf lbls ors"
  from assms [unfolded Ensure_observed]
  have res: "res = fst (run (rfService h) ?plan w)"
    and tr: "tr = map (\<lambda>(c, e). Ensured c e) (answers (rfService h) ?plan w)"
    by (simp_all add: Ensure_run)
  have a: "res = None \<longrightarrow> tr = map (\<lambda>c. Ensured c None) ?plan"
    using res tr answers_None [of "rfService h" ?plan w] by (simp add: comp_def)
  have b: "\<forall>e. res = Some e \<longrightarrow>
             (\<exists>k<7. tr = map (\<lambda>c. Ensured c None) (take k ?plan) @ [Ensured (?plan ! k) (Some e)])"
  proof (intro allI impI)
    fix e assume "res = Some e"
    with res have "fst (run (rfService h) ?plan w) = Some e" by simp
    from answers_Some [OF this] obtain k where "k < length ?plan"
      and "answers (rfService h) ?plan w = map (\<lambda>cm. (cm, None)) (take k ?plan) @ [(?plan ! k, Some e)]"
      by blast
    then have "k < 7" and "tr = map (\<lambda>c. Ensured c None) (take k ?plan) @ [Ensured (?plan ! k) (Some e)]"
      using tr by (simp_all add: ensure_plan_def comp_def)
    then show "\<exists>k<7. tr = map (\<lambda>c. Ensured c None) (take k ?plan) @ [Ensured (?plan ! k) (Some e)]"
      by blast
  qed
  from a b show ?thesis unfolding Let_def ensure_plan_def by blast
qed

text \<open>
  The exporter disabled: a service that accepts every call, and one that refuses the
  Redis config map.
\<close>

theorem Ensure_fixed_order_witness:
  "Ensure (observed_handler (handler_example (\<lambda>c. False))) (rf_sentinels 3) Map.empty []
        ([], ([], None))
     = (None,
        ([Ensured (EnsureNotPresentRedisService (rf_sentinels 3)) None,
          Ensured (EnsureSentinelService (rf_sentinels 3) Map.empty []) None,
          Ensured (EnsureSentinelConfigMap (rf_sentinels 3) Map.empty []) None,
          Ensured (EnsureRedisShutdownConfigMap (rf_sentinels 3) Map.empty []) None,
          Ensured (EnsureRedisConfigMap (rf_sentinels 3) Map.empty []) None,
          Ensured (EnsureRedisStatefulset (rf_sentinels 3) Map.empty []) None,
          Ensured (EnsureSentinelDeployment (rf_sentinels 3) Map.empty []) None], ([], None)))
   \<and> Ensure (observed_handler (handler_example refuses_config_map)) (rf_sentinels 3) Map.empty []
        ([], ([], None))
     = (Some ''forbidden'',
        ([Ensured (EnsureNotPresentRedisService (rf_sentinels 3)) None,
          Ensured (EnsureSentinelService (rf_sentinels 3) Map.empty []) None,
          Ensured (EnsureSentinelConfigMap (rf_sentinels 3) Map.empty []) None,
          Ensured (EnsureRedisShutdownConfigMap (rf_sentinels 3) Map.empty []) None,
          Ensured (EnsureRedisConfigMap (rf_sentinels 3) Map.empty []) (Some ''forbidden'')],
         ([], None)))"
proof -
  let ?h1 = "handler_example (\<lambda>c. False)"
  let ?h2 = "handler_example refuses_config_map"
  let ?rf = "rf_sentinels 3"
  let ?tr1 = "[Ensured (EnsureNotPresentRedisService ?rf) None,
          Ensured (EnsureSentinelService ?rf Map.empty []) None,
          Ensured (EnsureSentinelConfigMap ?rf Map.empty []) None,
          Ensured (EnsureRedisShutdownConfigMap ?rf Map.empty []) None,
          Ensured (EnsureRedisConfigMap ?rf Map.empty []) None,
          Ensured (EnsureRedisStatefulset ?rf Map.empty []) None,
          Ensured (EnsureSentinelDeployment ?rf Map.empty []) None]"
  let ?tr2 = "[Ensured (EnsureNotPresentRedisService ?rf) None,
          Ensured (EnsureSentinelService ?rf Map.empty []) None,
          Ensured (EnsureSentinelConfigMap ?rf Map.empty []) None,
          Ensured (EnsureRedisShutdownConfigMap ?rf Map.empty []) None,
          Ensured (EnsureRedisConfigMap ?rf Map.empty []) (Some ''forbidden'')]"
  have off: "\<not> Enabled (Exporter (Redis (Spec ?rf)))"
    by (simp add: rf_sentinels_def)
  have run1: "Ensure (observed_handler ?h1) ?rf Map.empty [] ([], ([], None))
                = (None, (?tr1, ([], None)))"
    using off by (simp add: Ensure_run ensure_plan_def logged_def)
  have run2: "Ensure (observed_handler ?h2) ?rf Map.empty [] ([], ([], None))
                = (Some ''forbidden'', (?tr2, ([], None)))"
    using off by (simp add: Ensure_run ensure_plan_def logged_def refuses_config_map_def)
  from Ensure_fixed_order [OF run1] Ensure_fixed_order [OF run2] run1 run2
  show ?thesis by blast
qed

text \<open>
  C5. In the journal of a pass the calls appear in the order of the stages (the calls
  of \<^verbatim>\<open>Ensure\<close>, then \<^verbatim>\<open>CheckAndHeal\<close>, then the status stage, then the report to
  the metrics client), and no call is made twice. A call that fails is the last call
  of the pass apart from that report, and the pass returns the error of its stage. The
  pass returns no error exactly when validation and every call succeeded, and then it
  has made the seven calls of \<^verbatim>\<open>Ensure\<close>, \<^verbatim>\<open>CheckAndHeal\<close>, the listing of the
  Redis nodes, the write of the resource and the report of success, in this order. When
  validation fails, the pass returns the validation error and has called nothing but
  the metrics client. The resource is sent to the object store only after validation,
  all seven calls of \<^verbatim>\<open>Ensure\<close> and \<^verbatim>\<open>CheckAndHeal\<close> have succeeded.
\<close>

theorem pass_stages_in_order:
  assumes "Validate h rf0 = (v, rf)"
    and "Add (observed_handler h) (RedisFailoverObject rf0) ([], w) = (res, (tr, w'))"
  shows "(let plan = [if Enabled (Exporter (Redis (Spec rf)))
                      then EnsureRedisService rf (getLabels h rf) (createOwnerReferences h rf)
                      else EnsureNotPresentRedisService rf,
                      EnsureSentinelService rf (getLabels h rf) (createOwnerReferences h rf),
                      EnsureSentinelConfigMap rf (getLabels h rf) (createOwnerReferences h rf),
                      EnsureRedisShutdownConfigMap rf (getLabels h rf)
                        (createOwnerReferences h rf),
                      EnsureRedisConfigMap rf (getLabels h rf) (createOwnerReferences h rf),
                      EnsureRedisStatefulset rf (getLabels h rf) (createOwnerReferences h rf),
                      EnsureSentinelDeployment rf (getLabels h rf) (createOwnerReferences h rf)]
          in sorted (map stage tr)
           \<and> distinct (map call_of tr)
           \<and> (\<forall>ev\<in>set tr. \<forall>e. stage_error ev = Some e \<longrightarrow>
                 res = Some e \<and> last (filter (\<lambda>x. stage x \<noteq> 4) tr) = ev)
           \<and> (res = None \<longleftrightarrow> v = None \<and> (\<forall>ev\<in>set tr. stage_error ev = None))
           \<and> (\<forall>e. v = Some e \<longrightarrow>
                 res = Some e \<and> tr = [Metric (SetClusterError (Namespace rf) (Name rf))]
                 \<and> w' = mClient h (SetClusterError (Namespace rf) (Name rf)) w)
           \<and> ((\<exists>ns rf' r. Updated ns rf' r \<in> set tr) \<longrightarrow>
                 v = None \<and> Healed rf None \<in> set tr
                 \<and> (\<forall>c\<in>set plan. Ensured c None \<in> set tr))
           \<and> (res = None \<longrightarrow>
                 (\<exists>redisNodes.
                    tr = map (\<lambda>c. Ensured c None) plan
                         @ [Healed rf None, Listed rf (Inr redisNodes),
                            Updated (Namespace rf)
                              (rf\<lparr>Status := (Status rf)\<lparr>RedisNodes := redisNodes\<rparr>\<rparr>) None,
                            Metric (SetClusterOK (Namespace rf) (Name rf))])))"
proof -
  have inv: "\<forall>e. v = Some e \<longrightarrow>
             res = Some e \<and> tr = [Metric (SetClusterError (Namespace rf) (Name rf))]
             \<and> w' = mClient h (SetClusterError (Namespace rf) (Name rf)) w"
    using Add_invalid [of h rf0 _ rf w res tr w'] assms by blast
  have upd: "(\<exists>ns rf' r. Updated ns rf' r \<in> set tr) \<longrightarrow>
             v = None \<and> Healed rf None \<in> set tr
             \<and> (\<forall>c\<in>set (ensure_plan rf (getLabels h rf) (createOwnerReferences h rf)).
                   Ensured c None \<in> set tr)"
    using Add_status_after_success [OF assms] by blast
  have ok: "res = None \<longrightarrow>
             (\<exists>redisNodes.
                tr = map (\<lambda>c. Ensured c None)
                       (ensure_plan rf (getLabels h rf) (createOwnerReferences h rf))
                     @ [Healed rf None, Listed rf (Inr redisNodes),
                        Updated (Namespace rf)
                          (rf\<lparr>Status := (Status rf)\<lparr>RedisNodes := redisNodes\<rparr>\<rparr>) None,
                        Metric (SetClusterOK (Namespace rf) (Name rf))])"
    using Add_success_shape [OF assms] by blast
  show ?thesis
    using Add_sorted [OF assms] Add_distinct [OF assms] Add_failure_last [OF assms]
      Add_success_iff [OF assms] inv upd ok
    unfolding ensure_plan_def Let_def by blast
qed

text \<open>
  Three passes: a resource that fails validation, an object service that refuses the
  Redis config map, and a pass in which everything succeeds.
\<close>

theorem pass_stages_in_order_witness:
  "Add (observed_handler (handler_example (\<lambda>c. False))) (RedisFailoverObject rf_invalid)
       ([], (one_live_sentinel, None))
     = (Some ''number of redises in spec is less than the minimum'',
        ([Metric (SetClusterError ''default'' ''cache'')], (one_live_sentinel, None)))
   \<and> fst (Add (observed_handler (handler_example refuses_config_map))
            (RedisFailoverObject (rf_sentinels 3)) ([], (one_live_sentinel, None)))
       = Some ''forbidden''
   \<and> snd (snd (Add (observed_handler (handler_example refuses_config_map))
            (RedisFailoverObject (rf_sentinels 3)) ([], (one_live_sentinel, None))))
       = (one_live_sentinel, None)
   \<and> fst (Add (observed_handler (handler_example (\<lambda>c. False)))
            (RedisFailoverObject (rf_sentinels 3)) ([], (one_live_sentinel, None)))
       = None
   \<and> snd (snd (Add (observed_handler (handler_example (\<lambda>c. False)))
            (RedisFailoverObject (rf_sentinels 3)) ([], (one_live_sentinel, None))))
       = (one_live_sentinel, Some rf_observed)
   \<and> sorted (map stage (fst (snd (Add (observed_handler (handler_example (\<lambda>c. False)))
            (RedisFailoverObject rf_invalid) ([], (one_live_sentinel, None))))))
   \<and> distinct (map call_of (fst (snd (Add (observed_handler (handler_example refuses_config_map))
            (RedisFailoverObject (rf_sentinels 3)) ([], (one_live_sentinel, None))))))
   \<and> sorted (map stage (fst (snd (Add (observed_handler (handler_example (\<lambda>c. False)))
            (RedisFailoverObject (rf_sentinels 3)) ([], (one_live_sentinel, None))))))
   \<and> Healed (rf_sentinels 3) None
        \<in> set (fst (snd (Add (observed_handler (handler_example (\<lambda>c. False)))
            (RedisFailoverObject (rf_sentinels 3)) ([], (one_live_sentinel, None)))))"
proof -
  let ?ok = "handler_example (\<lambda>c. False)"
  let ?no = "handler_example refuses_config_map"
  let ?w = "(one_live_sentinel, None :: RedisFailover option)"
  have v1: "Validate ?ok rf_invalid
              = (Some ''number of redises in spec is less than the minimum'', rf_invalid)"
    by simp
  have v2: "Validate ?no (rf_sentinels 3) = (None, rf_sentinels 3)" by simp
  have v3: "Validate ?ok (rf_sentinels 3) = (None, rf_sentinels 3)" by simp
  note p1 = pass_stages_in_order [OF v1 Add_invalid_example, unfolded Let_def]
  note p2 = pass_stages_in_order [OF v2 Add_refused_example, unfolded Let_def]
  note p3 = pass_stages_in_order [OF v3 Add_ok_example, unfolded Let_def]
  let ?tr = "map (\<lambda>c. Ensured c None)
               (ensure_plan (rf_sentinels 3) (getLabels ?ok (rf_sentinels 3))
                  (createOwnerReferences ?ok (rf_sentinels 3)))
             @ [Healed (rf_sentinels 3) None, Listed (rf_sentinels 3) (Inr nodes_seen),
                Updated ''default'' rf_observed None,
                Metric (SetClusterOK ''default'' ''cache'')]"
  have srt: "sorted (map stage ?tr)" by (rule p3 [THEN conjunct1])
  have "Updated ''default'' rf_observed None \<in> set ?tr" by simp
  then have upd: "\<exists>ns rf' r. Updated ns rf' r \<in> set ?tr" by (intro exI)
  have healed: "Healed (rf_sentinels 3) None \<in> set ?tr"
    using p3 [THEN conjunct2, THEN conjunct2, THEN conjunct2, THEN conjunct2, THEN conjunct2,
        THEN conjunct1, THEN mp, OF upd]
    by (rule conjunct2 [THEN conjunct1])
  show ?thesis
    unfolding Add_invalid_example Add_refused_example Add_ok_example fst_conv snd_conv
    using srt healed p1 [THEN conjunct1] p2 [THEN conjunct2, THEN conjunct1]
    by (intro conjI refl)
qed

section \<open>Repeating an operation of the healer\<close>



end
